theory Spec2Isabelle
  imports Main
begin

section \<open>JavaScript strings\<close>

text \<open>
  The converter is a JavaScript (JScript) script. A JavaScript string is a sequence of
  UTF-16 code units, so a string is modelled as a list of code units (natural numbers);
  \<open>length\<close> is the script's \<open>.length\<close>. The function \<open>js\<close> turns an Isabelle
  string literal into such a list, so that \<open>js ''dm+d: 123456''\<close> is the script's
  \<open>"dm+d: 123456"\<close>.
\<close>

type_synonym jsstring = "nat list"

definition js :: "string \<Rightarrow> jsstring" where
  "js s = map of_char s"

text \<open>
  The character classes of ECMAScript regular expressions: \<open>\s\<close> is WhiteSpace and
  LineTerminator, \<open>\d\<close> is the ten ASCII digits, and \<open>.\<close> is every code unit that is
  not a LineTerminator.
\<close>

definition isLineTerminator :: "nat \<Rightarrow> bool" where
  "isLineTerminator c = (c = 10 \<or> c = 13 \<or> c = 8232 \<or> c = 8233)"

definition isWhiteSpace :: "nat \<Rightarrow> bool" where
  "isWhiteSpace c =
     (c = 9 \<or> c = 10 \<or> c = 11 \<or> c = 12 \<or> c = 13 \<or> c = 32 \<or> c = 160 \<or> c = 5760
      \<or> (8192 \<le> c \<and> c \<le> 8202) \<or> c = 8232 \<or> c = 8233 \<or> c = 8239 \<or> c = 8287
      \<or> c = 12288 \<or> c = 65279)"

definition isDigit :: "nat \<Rightarrow> bool" where
  "isDigit c = (48 \<le> c \<and> c \<le> 57)"

text \<open>
  Under the \<open>i\<close> flag two code units match when their canonical forms are equal. Every
  letter written in the script's patterns is ASCII, and ECMAScript never canonicalises a
  code unit from 128 upwards to an ASCII one, so upper-casing \<open>a\<close>..\<open>z\<close> is the whole
  of the canonicalisation that these patterns can observe.
\<close>

definition canon :: "nat \<Rightarrow> nat" where
  "canon c = (if 97 \<le> c \<and> c \<le> 122 then c - 32 else c)"

section \<open>Regular expressions\<close>

text \<open>
  The patterns of the script are written in the following syntax and run by a backtracking
  matcher with the ECMAScript priorities: alternatives left to right, quantifiers greedy.
  A match state is the index reached in the subject string, the rest of the subject from
  that index, and the captures made so far (latest first).
\<close>

datatype citem = CChr nat | CWs | CDig

datatype re =
    Chr nat
  | Dot
  | Cls "citem list"
  | NCls "citem list"
  | Cat re re
  | Alt re re
  | Rep nat "nat option" re
  | Grp nat re
  | Bol
  | Eol
  | Eps

type_synonym captures = "(nat \<times> jsstring) list"
type_synonym mstate = "nat \<times> jsstring \<times> captures"

fun item_match :: "bool \<Rightarrow> citem \<Rightarrow> nat \<Rightarrow> bool" where
  "item_match ci (CChr a) x = (if ci then canon a = canon x else a = x)"
| "item_match ci CWs x = isWhiteSpace x"
| "item_match ci CDig x = isDigit x"

fun rsize :: "re \<Rightarrow> nat" where
  "rsize (Cat a b) = Suc (rsize a + rsize b)"
| "rsize (Alt a b) = Suc (rsize a + rsize b)"
| "rsize (Rep lo hi r) = Suc (rsize r)"
| "rsize (Grp n r) = Suc (rsize r)"
| "rsize r = 0"

text \<open>
  \<open>m ci r st\<close> lists, in the order in which a backtracking matcher would try them, the
  states that \<open>r\<close> can reach from \<open>st\<close>. An iteration of a quantifier that consumes
  nothing is dropped (ECMAScript does so once the minimum count is reached; no quantified
  sub-pattern of the script can match the empty string, so the minimum never matters).
\<close>

function m :: "bool \<Rightarrow> re \<Rightarrow> mstate \<Rightarrow> mstate list" where
  "m ci (Chr a) (p, s, cs) =
     (case s of [] \<Rightarrow> []
      | x # xs \<Rightarrow> if item_match ci (CChr a) x then [(Suc p, xs, cs)] else [])"
| "m ci Dot (p, s, cs) =
     (case s of [] \<Rightarrow> []
      | x # xs \<Rightarrow> if isLineTerminator x then [] else [(Suc p, xs, cs)])"
| "m ci (Cls is) (p, s, cs) =
     (case s of [] \<Rightarrow> []
      | x # xs \<Rightarrow> if list_ex (\<lambda>i. item_match ci i x) is then [(Suc p, xs, cs)] else [])"
| "m ci (NCls is) (p, s, cs) =
     (case s of [] \<Rightarrow> []
      | x # xs \<Rightarrow> if list_ex (\<lambda>i. item_match ci i x) is then [] else [(Suc p, xs, cs)])"
| "m ci (Cat a b) st = concat (map (\<lambda>st'. m ci b st') (m ci a st))"
| "m ci (Alt a b) st = m ci a st @ m ci b st"
| "m ci (Rep lo hi r) (p, s, cs) =
     (if hi = Some 0 then [(p, s, cs)]
      else concat (map (\<lambda>st'. if length (fst (snd st')) < length s
                              then m ci (Rep (lo - 1) (map_option (\<lambda>h. h - 1) hi) r) st'
                              else [])
                       (m ci r (p, s, cs)))
           @ (if lo = 0 then [(p, s, cs)] else []))"
| "m ci (Grp n r) (p, s, cs) =
     map (\<lambda>st'. (fst st', fst (snd st'), (n, take (fst st' - p) s) # snd (snd st')))
         (m ci r (p, s, cs))"
| "m ci Bol (p, s, cs) = (if p = 0 then [(p, s, cs)] else [])"
| "m ci Eol (p, s, cs) = (if s = [] then [(p, s, cs)] else [])"
| "m ci Eps st = [st]"
  by pat_completeness auto
termination
  by (relation "inv_image (less_than <*lex*> less_than)
        (\<lambda>(ci, r, p, s, cs). (rsize r, length s))") auto

text \<open>
  Every state that the matcher reaches lies further along the same subject string.
\<close>

lemma m_reaches_gen:
  "st' \<in> set (m ci r st) \<Longrightarrow>
     \<exists>u. fst (snd st) = u @ fst (snd st') \<and> fst st' = fst st + length u"
proof (induction ci r st arbitrary: st' rule: m.induct)
  case (5 ci a b st)
  from "5.prems" obtain st1 where a: "st1 \<in> set (m ci a st)"
    and b: "st' \<in> set (m ci b st1)" by auto
  from "5.IH"(1)[OF a] obtain u
    where u: "fst (snd st) = u @ fst (snd st1)" "fst st1 = fst st + length u" by auto
  from "5.IH"(2)[OF a b] obtain v
    where v: "fst (snd st1) = v @ fst (snd st')" "fst st' = fst st1 + length v" by auto
  from u v show ?case by (intro exI[of _ "u @ v"]) simp
next
  case (7 ci lo hi r p s cs)
  show ?case
  proof (cases "hi = Some 0")
    case True
    with "7.prems" show ?thesis by simp
  next
    case False
    from "7.prems" False consider
      (iter) st1 where "st1 \<in> set (m ci r (p, s, cs))"
         "length (fst (snd st1)) < length s"
         "st' \<in> set (m ci (Rep (lo - 1) (map_option (\<lambda>h. h - 1) hi) r) st1)"
      | (stop) "st' = (p, s, cs)"
      by (auto split: if_splits)
    then show ?thesis
    proof cases
      case iter
      from "7.IH"(1)[OF False iter(1)] obtain u
        where u: "s = u @ fst (snd st1)" "fst st1 = p + length u" by auto
      from "7.IH"(2)[OF False iter(1) iter(2) iter(3)] obtain v
        where v: "fst (snd st1) = v @ fst (snd st')" "fst st' = fst st1 + length v" by auto
      from u v show ?thesis by (intro exI[of _ "u @ v"]) simp
    next
      case stop
      then show ?thesis by simp
    qed
  qed
qed (auto split: list.splits if_splits)

lemma m_reaches:
  "st' \<in> set (m ci r (p, s, cs)) \<Longrightarrow>
     \<exists>u. s = u @ fst (snd st') \<and> fst st' = p + length u"
  using m_reaches_gen[of st' ci r "(p, s, cs)"] by simp

text \<open>
  \<open>search\<close> is the unanchored search of \<open>RegExp.prototype.exec\<close>: the leftmost start
  index from which the pattern matches, with the first match the backtracking finds. It
  returns the start index, the end index and the captures.
\<close>

fun search :: "bool \<Rightarrow> re \<Rightarrow> nat \<Rightarrow> jsstring \<Rightarrow> (nat \<times> nat \<times> captures) option" where
  "search ci r p [] =
     (case m ci r (p, [], []) of [] \<Rightarrow> None
      | st # _ \<Rightarrow> Some (p, fst st, snd (snd st)))"
| "search ci r p (x # xs) =
     (case m ci r (p, x # xs, []) of [] \<Rightarrow> search ci r (Suc p) xs
      | st # _ \<Rightarrow> Some (p, fst st, snd (snd st)))"

lemma search_bounds:
  "search ci r p s = Some (b, e, cs) \<Longrightarrow> p \<le> b \<and> b \<le> e \<and> e \<le> p + length s"
proof (induction s arbitrary: p)
  case Nil
  then obtain st sts where "m ci r (p, [], []) = st # sts" "b = p" "e = fst st"
    by (auto split: list.splits)
  then have "st \<in> set (m ci r (p, [], []))" by simp
  from m_reaches[OF this] \<open>b = p\<close> \<open>e = fst st\<close> show ?case by auto
next
  case (Cons x xs)
  show ?case
  proof (cases "m ci r (p, x # xs, [])")
    case Nil
    with Cons.prems have "search ci r (Suc p) xs = Some (b, e, cs)" by simp
    from Cons.IH[OF this] show ?thesis by simp
  next
    case (Cons st sts)
    with Cons.prems have be: "b = p" "e = fst st" by auto
    from Cons have "st \<in> set (m ci r (p, x # xs, []))" by simp
    from m_reaches[OF this] be show ?thesis
      by (metis add_le_cancel_left le_add1 length_append le_refl)
  qed
qed

text \<open>
  The script's uses of regular expressions: \<open>str.match(re)\<close> without the \<open>g\<close> flag
  (\<open>exec\<close>, with \<open>group\<close> reading a capture; an unset capture is \<open>undefined\<close>),
  \<open>re.test(str)\<close>, \<open>str.match(re)\<close> with the \<open>g\<close> flag (all matched substrings),
  and \<open>str.replace(re, f)\<close> with the \<open>g\<close> flag.
\<close>

definition exec :: "bool \<Rightarrow> re \<Rightarrow> jsstring \<Rightarrow> (nat \<times> nat \<times> captures) option" where
  "exec ci r s = search ci r 0 s"

definition group :: "captures \<Rightarrow> nat \<Rightarrow> jsstring option" where
  "group cs n = map_of cs n"

definition test :: "bool \<Rightarrow> re \<Rightarrow> jsstring \<Rightarrow> bool" where
  "test ci r s = (exec ci r s \<noteq> None)"

function replace_from ::
  "bool \<Rightarrow> re \<Rightarrow> (jsstring \<Rightarrow> captures \<Rightarrow> jsstring) \<Rightarrow> nat \<Rightarrow> jsstring \<Rightarrow> jsstring" where
  "replace_from ci r f p s =
     (case search ci r p s of None \<Rightarrow> s
      | Some (b, e, cs) \<Rightarrow>
          take (b - p) s @ f (take (e - b) (drop (b - p) s)) cs @
          (if e = b
           then (case drop (b - p) s of [] \<Rightarrow> []
                 | x # xs \<Rightarrow> x # replace_from ci r f (Suc b) xs)
           else replace_from ci r f e (drop (e - p) s)))"
  by pat_completeness auto
termination
proof (relation "measure (\<lambda>(ci, r, f, p, s). length s)", goal_cases)
  case 1
  show ?case by simp
next
  case (2 ci r f p s x2 b y e cs x xs)
  have "length (drop (b - p) s) \<le> length s" by simp
  with 2 show ?case by simp
next
  case (3 ci r f p s x2 b y e cs)
  then have "search ci r p s = Some (b, e, cs)" by simp
  from search_bounds[OF this] 3 show ?case by auto
qed

definition replace_g ::
  "bool \<Rightarrow> re \<Rightarrow> (jsstring \<Rightarrow> captures \<Rightarrow> jsstring) \<Rightarrow> jsstring \<Rightarrow> jsstring" where
  "replace_g ci r f s = replace_from ci r f 0 s"

function match_from :: "bool \<Rightarrow> re \<Rightarrow> nat \<Rightarrow> jsstring \<Rightarrow> jsstring list" where
  "match_from ci r p s =
     (case search ci r p s of None \<Rightarrow> []
      | Some (b, e, cs) \<Rightarrow>
          take (e - b) (drop (b - p) s) #
          (if e = b
           then (case drop (b - p) s of [] \<Rightarrow> []
                 | x # xs \<Rightarrow> match_from ci r (Suc b) xs)
           else match_from ci r e (drop (e - p) s)))"
  by pat_completeness auto
termination
proof (relation "measure (\<lambda>(ci, r, p, s). length s)", goal_cases)
  case 1
  show ?case by simp
next
  case (2 ci r p s x2 b y e cs x xs)
  have "length (drop (b - p) s) \<le> length s" by simp
  with 2 show ?case by simp
next
  case (3 ci r p s x2 b y e cs)
  then have "search ci r p s = Some (b, e, cs)" by simp
  from search_bounds[OF this] 3 show ?case by auto
qed

definition match_g :: "bool \<Rightarrow> re \<Rightarrow> jsstring \<Rightarrow> jsstring list" where
  "match_g ci r s = match_from ci r 0 s"

text \<open>Shorthands for writing the script's patterns.\<close>

definition ws :: re where "ws = Cls [CWs]"            \<comment> \<open>\<open>\s\<close>\<close>
definition dig :: re where "dig = Cls [CDig]"         \<comment> \<open>\<open>\d\<close>\<close>
definition star :: "re \<Rightarrow> re" where "star r = Rep 0 None r"
definition plus :: "re \<Rightarrow> re" where "plus r = Rep 1 None r"
definition opt :: "re \<Rightarrow> re" where "opt r = Rep 0 (Some 1) r"
definition cat :: "re list \<Rightarrow> re" where "cat rs = foldr Cat rs Eps"
definition lit :: "string \<Rightarrow> re" where "lit s = cat (map Chr (js s))"
definition chr :: "string \<Rightarrow> re" where "chr s = Cls (map CChr (js s))"

fun alts :: "re list \<Rightarrow> re" where
  "alts [] = Eps"
| "alts [r] = r"
| "alts (r # rs) = Alt r (alts rs)"

section \<open>The converter's string functions\<close>

text \<open>
  \<open>trimString\<close>: \<open>str.replace(/^\s+|\s+$/g, "")\<close>. The script's guard
  \<open>if (!str) return ""\<close> returns the empty string for the empty string, which the
  replacement does as well.
\<close>

definition trimString :: "jsstring \<Rightarrow> jsstring" where
  "trimString str =
     (if str = [] then []
      else replace_g False (Alt (Cat Bol (plus ws)) (Cat (plus ws) Eol)) (\<lambda>_ _. []) str)"

text \<open>
  \<open>isValidEclExpression\<close>: the three tests of the script, in its own order.
\<close>

definition hasEclOperators :: "jsstring \<Rightarrow> bool" where
  "hasEclOperators expression =
     test True (alts [chr ''<>^'', lit ''AND'', lit ''OR'', lit ''MINUS'']) expression"

definition hasConceptIds :: "jsstring \<Rightarrow> bool" where
  "hasConceptIds expression = test False (Rep 6 (Some 18) dig) expression"

definition hasLogicalStructure :: "jsstring \<Rightarrow> bool" where
  "hasLogicalStructure expression =
     (test True (cat [plus ws, Grp 1 (alts [lit ''or'', lit ''and'', lit ''minus'']), plus ws])
        expression
      \<or> test False (alts [cat [Rep 1 (Some 2) (Chr 60), star ws, dig],
                           cat [Rep 1 (Some 2) (Chr 62), star ws, dig],
                           cat [Chr 94, star ws, dig]]) expression)"

definition isValidEclExpression :: "jsstring \<Rightarrow> bool" where
  "isValidEclExpression expression =
     (hasEclOperators expression \<and> hasConceptIds expression \<and>
      (hasLogicalStructure expression \<or> length expression > 20))"

text \<open>
  \<open>cleanAndStandardizeEcl\<close>: the script's replacements, one after the other; each
  assignment to \<open>cleaned\<close> is one function below.
\<close>

definition stripSpaces :: "jsstring \<Rightarrow> jsstring" where
  \<comment> \<open>\<open>match.replace(/\s/g, "")\<close>\<close>
  "stripSpaces mt = replace_g False ws (\<lambda>_ _. []) mt"

definition upperOr :: "jsstring \<Rightarrow> jsstring" where
  \<comment> \<open>\<open>cleaned.replace(/\s+or\s+/gi, " OR ")\<close>\<close>
  "upperOr cleaned =
     replace_g True (cat [plus ws, lit ''or'', plus ws]) (\<lambda>_ _. js '' OR '') cleaned"

definition upperAnd :: "jsstring \<Rightarrow> jsstring" where
  \<comment> \<open>\<open>cleaned.replace(/\s+and\s+/gi, " AND ")\<close>\<close>
  "upperAnd cleaned =
     replace_g True (cat [plus ws, lit ''and'', plus ws]) (\<lambda>_ _. js '' AND '') cleaned"

definition upperMinus :: "jsstring \<Rightarrow> jsstring" where
  \<comment> \<open>\<open>cleaned.replace(/\s+minus\s+/gi, " MINUS ")\<close>\<close>
  "upperMinus cleaned =
     replace_g True (cat [plus ws, lit ''minus'', plus ws]) (\<lambda>_ _. js '' MINUS '') cleaned"

definition spaceLt :: "jsstring \<Rightarrow> jsstring" where
  \<comment> \<open>\<open>cleaned.replace(/\s*<{1,2}\s*/g, function(match) {...})\<close>\<close>
  "spaceLt cleaned =
     replace_g False (cat [star ws, Rep 1 (Some 2) (Chr 60), star ws])
       (\<lambda>mt _. stripSpaces mt @ js '' '') cleaned"

definition spaceGt :: "jsstring \<Rightarrow> jsstring" where
  \<comment> \<open>\<open>cleaned.replace(/\s*>{1,2}\s*/g, function(match) {...})\<close>\<close>
  "spaceGt cleaned =
     replace_g False (cat [star ws, Rep 1 (Some 2) (Chr 62), star ws])
       (\<lambda>mt _. stripSpaces mt @ js '' '') cleaned"

definition spaceCaret :: "jsstring \<Rightarrow> jsstring" where
  \<comment> \<open>\<open>cleaned.replace(/\s*\^\s*/g, "^ ")\<close>\<close>
  "spaceCaret cleaned =
     replace_g False (cat [star ws, Chr 94, star ws]) (\<lambda>_ _. js ''^ '') cleaned"

definition stripTags :: "jsstring \<Rightarrow> jsstring" where
  \<comment> \<open>\<open>cleaned.replace(/\|([^|]+)\s*\([^)]+\)\s*\|/g, function(match, term) {...})\<close>\<close>
  "stripTags cleaned =
     replace_g False
       (cat [Chr 124, Grp 1 (plus (NCls [CChr 124])), star ws, Chr 40,
             plus (NCls [CChr 41]), Chr 41, star ws, Chr 124])
       (\<lambda>_ cs. js ''|'' @ trimString (case group cs 1 of None \<Rightarrow> [] | Some term \<Rightarrow> term)
                @ js ''|'') cleaned"

definition collapseSpaces :: "jsstring \<Rightarrow> jsstring" where
  \<comment> \<open>\<open>cleaned.replace(/\s+/g, " ")\<close>\<close>
  "collapseSpaces cleaned = replace_g False (plus ws) (\<lambda>_ _. js '' '') cleaned"

definition cleanAndStandardizeEcl :: "jsstring \<Rightarrow> jsstring" where
  "cleanAndStandardizeEcl eclExpression =
     trimString (collapseSpaces (stripTags (spaceCaret (spaceGt (spaceLt
       (upperMinus (upperAnd (upperOr (trimString eclExpression)))))))))"

text \<open>
  \<open>cleanConceptTerm\<close>: \<open>term.replace(/\s*\([^)]+\)\s*$/g, "")\<close>, then trimmed.
\<close>

definition cleanConceptTerm :: "jsstring \<Rightarrow> jsstring" where
  "cleanConceptTerm term =
     trimString (replace_g False
        (cat [star ws, Chr 40, plus (NCls [CChr 41]), Chr 41, star ws, Eol]) (\<lambda>_ _. []) term)"

section \<open>decodeURIComponent\<close>

text \<open>
  The built-in \<open>decodeURIComponent\<close> of ECMAScript: every \<open>%XX\<close> escape is an octet,
  the octets are read as UTF-8, and the code point is written back as UTF-16. A truncated
  or non-hexadecimal escape, a stray continuation octet, a missing continuation octet, an
  overlong form, a surrogate or a value above \<open>0x10FFFF\<close> throws \<open>URIError\<close>.
\<close>

datatype js_error = URIError

definition hexDigit :: "nat \<Rightarrow> nat option" where
  "hexDigit c =
     (if 48 \<le> c \<and> c \<le> 57 then Some (c - 48)
      else if 65 \<le> c \<and> c \<le> 70 then Some (c - 55)
      else if 97 \<le> c \<and> c \<le> 102 then Some (c - 87)
      else None)"

fun octet :: "jsstring \<Rightarrow> (nat \<times> jsstring) option" where
  "octet (p # a # b # rest) =
     (if p = 37
      then (case hexDigit a of None \<Rightarrow> None
            | Some h \<Rightarrow> (case hexDigit b of None \<Rightarrow> None
                          | Some l \<Rightarrow> Some (16 * h + l, rest)))
      else None)"
| "octet _ = None"

fun continuation :: "nat \<Rightarrow> jsstring \<Rightarrow> (nat list \<times> jsstring) option" where
  "continuation 0 s = Some ([], s)"
| "continuation (Suc n) s =
     (case octet s of None \<Rightarrow> None
      | Some (b, rest) \<Rightarrow>
          if 128 \<le> b \<and> b < 192
          then (case continuation n rest of None \<Rightarrow> None
                | Some (bs, r) \<Rightarrow> Some (b # bs, r))
          else None)"

fun utf8_value :: "nat \<Rightarrow> nat list \<Rightarrow> nat option" where
  "utf8_value b [c1] =
     (if 194 \<le> b \<and> b < 224 then Some ((b - 192) * 64 + (c1 - 128)) else None)"
| "utf8_value b [c1, c2] =
     (if 224 \<le> b \<and> b < 240 \<and> 2048 \<le> (b - 224) * 4096 + (c1 - 128) * 64 + (c2 - 128)
         \<and> ((b - 224) * 4096 + (c1 - 128) * 64 + (c2 - 128) < 55296
              \<or> 57343 < (b - 224) * 4096 + (c1 - 128) * 64 + (c2 - 128))
      then Some ((b - 224) * 4096 + (c1 - 128) * 64 + (c2 - 128)) else None)"
| "utf8_value b [c1, c2, c3] =
     (if 240 \<le> b \<and> b < 248
         \<and> 65536 \<le> (b - 240) * 262144 + (c1 - 128) * 4096 + (c2 - 128) * 64 + (c3 - 128)
         \<and> (b - 240) * 262144 + (c1 - 128) * 4096 + (c2 - 128) * 64 + (c3 - 128) \<le> 1114111
      then Some ((b - 240) * 262144 + (c1 - 128) * 4096 + (c2 - 128) * 64 + (c3 - 128))
      else None)"
| "utf8_value b _ = None"

definition utf16 :: "nat \<Rightarrow> jsstring" where
  "utf16 v = (if v < 65536 then [v]
              else [55296 + (v - 65536) div 1024, 56320 + (v - 65536) mod 1024])"

definition andThen :: "jsstring \<Rightarrow> js_error + jsstring \<Rightarrow> js_error + jsstring" where
  "andThen x r = (case r of Inl e \<Rightarrow> Inl e | Inr t \<Rightarrow> Inr (x @ t))"

lemma octet_shorter: "octet s = Some (b, r) \<Longrightarrow> length r < length s"
  by (induction s rule: octet.induct) (auto split: if_splits option.splits)

lemma continuation_shorter: "continuation n s = Some (bs, r) \<Longrightarrow> length r \<le> length s"
proof (induction n arbitrary: s bs r)
  case 0
  then show ?case by simp
next
  case (Suc n)
  from Suc.prems obtain b rest bs' where o: "octet s = Some (b, rest)"
    and c: "continuation n rest = Some (bs', r)"
    by (auto split: option.splits if_splits)
  from octet_shorter[OF o] Suc.IH[OF c] show ?case by simp
qed

function decodeURIComponent :: "jsstring \<Rightarrow> js_error + jsstring" where
  "decodeURIComponent [] = Inr []"
| "decodeURIComponent (c # cs) =
     (if c \<noteq> 37 then andThen [c] (decodeURIComponent cs)
      else (case octet (c # cs) of None \<Rightarrow> Inl URIError
            | Some (b, r1) \<Rightarrow>
                if b < 128 then andThen [b] (decodeURIComponent r1)
                else if b < 192 \<or> 248 \<le> b then Inl URIError
                else (case continuation (if b < 224 then 1 else if b < 240 then 2 else 3) r1 of
                        None \<Rightarrow> Inl URIError
                      | Some (bs, r2) \<Rightarrow>
                          (case utf8_value b bs of None \<Rightarrow> Inl URIError
                           | Some v \<Rightarrow> andThen (utf16 v) (decodeURIComponent r2)))))"
  by pat_completeness auto
termination
proof (relation "measure length", goal_cases)
  case 1
  show ?case by simp
next
  case (2 c cs)
  show ?case by simp
next
  case (3 c cs x2 b r1)
  from octet_shorter[of "c # cs" b r1] 3 show ?case by simp
next
  case (4 c cs x2 b r1 x2a bs r2 v)
  from octet_shorter[of "c # cs" b r1] 4 have "length r1 < length (c # cs)" by simp
  moreover from continuation_shorter[of _ r1 bs r2] 4 have "length r2 \<le> length r1" by simp
  ultimately show ?case by simp
qed

section \<open>The recognizers of extractSnomedEclFromValueSet\<close>

text \<open>
  Each block of \<open>extractSnomedEclFromValueSet\<close> is one function, named after the block's
  pattern variable. It returns \<open>None\<close> when the script falls through to the next block,
  and otherwise what the block's \<open>return\<close> yields (\<open>Inr\<close>) or the error it throws
  (\<open>Inl\<close>). A capture that did not take part in the match is \<open>undefined\<close>, which the
  script's truth tests treat like the empty string; \<open>str_of\<close> reads a capture that way.
  Capture 1 takes part in every match of every pattern below.
\<close>

definition str_of :: "jsstring option \<Rightarrow> jsstring" where
  "str_of x = (case x of None \<Rightarrow> [] | Some s \<Rightarrow> s)"

definition cls_ws :: "string \<Rightarrow> re" where
  \<comment> \<open>a character class holding \<open>\s\<close> and the listed characters\<close>
  "cls_ws s = Cls (CWs # map CChr (js s))"

definition snomedCT :: re where
  \<comment> \<open>\<open>SNOMED[\s\-]*CT[\s\(UK\)]?\s*:?\<close>, the prefix shared by patterns 4 to 9 and 11\<close>
  "snomedCT = cat [lit ''SNOMED'', star (cls_ws ''-''), lit ''CT'', opt (cls_ws ''(UK)''),
                   star ws, opt (lit '':'')]"

definition pipedTerm :: re where
  \<comment> \<open>\<open>(?:\|([^|]+)\|)?\<close>\<close>
  "pipedTerm = opt (cat [lit ''|'', Grp 2 (plus (NCls [CChr 124])), lit ''|''])"

definition conceptDigits :: re where
  \<comment> \<open>\<open>(\d{6,18})\<close>\<close>
  "conceptDigits = Grp 1 (Rep 6 (Some 18) dig)"

definition complexEclPattern :: re where
  \<comment> \<open>\<open>/SNOMED[\s\-]*CT\s*(?:\(UK\))?\s*:-?\s*(.+)/i\<close>\<close>
  "complexEclPattern =
     cat [lit ''SNOMED'', star (cls_ws ''-''), lit ''CT'', star ws, opt (lit ''(UK)''), star ws,
          lit '':'', opt (lit ''-''), star ws, Grp 1 (plus Dot)]"

definition complexEcl :: "jsstring \<Rightarrow> (js_error + jsstring) option" where
  "complexEcl valueSet =
     (case exec True complexEclPattern valueSet of None \<Rightarrow> None
      | Some (b, e, cs) \<Rightarrow>
          if isValidEclExpression (trimString (str_of (group cs 1)))
          then Some (Inr (cleanAndStandardizeEcl (trimString (str_of (group cs 1)))))
          else None)"

definition altPrefixPattern :: re where
  \<comment> \<open>\<open>/(SCT|SNOMEDCT|SNOMED[\s\-]*CT)[\s\(UK\)]?\s*:?\s*(.+)/i\<close>\<close>
  "altPrefixPattern =
     cat [Grp 1 (alts [lit ''SCT'', lit ''SNOMEDCT'',
                       cat [lit ''SNOMED'', star (cls_ws ''-''), lit ''CT'']]),
          opt (cls_ws ''(UK)''), star ws, opt (lit '':''), star ws, Grp 2 (plus Dot)]"

definition altPrefix :: "jsstring \<Rightarrow> (js_error + jsstring) option" where
  "altPrefix valueSet =
     (case exec True altPrefixPattern valueSet of None \<Rightarrow> None
      | Some (b, e, cs) \<Rightarrow>
          if exec True complexEclPattern valueSet = None
             \<and> isValidEclExpression (trimString (str_of (group cs 2)))
          then Some (Inr (cleanAndStandardizeEcl (trimString (str_of (group cs 2)))))
          else None)"

definition dmdPattern :: re where
  \<comment> \<open>\<open>/dm\+d:\s*(\d+)/i\<close>\<close>
  "dmdPattern = cat [lit ''dm+d:'', star ws, Grp 1 (plus dig)]"

definition dmd :: "jsstring \<Rightarrow> (js_error + jsstring) option" where
  "dmd valueSet =
     (case exec True dmdPattern valueSet of None \<Rightarrow> None
      | Some (b, e, cs) \<Rightarrow> Some (Inr (js ''< '' @ str_of (group cs 1) @ js '' |dm+d concept|'')))"

definition refsetPattern :: re where
  \<comment> \<open>\<open>/SNOMED[\s\-]*CT[\s\(UK\)]?\s*:?\s*-?\s*\^(\d{6,18})\s*(?:\|([^|]+)\|)?/i\<close>\<close>
  "refsetPattern =
     cat [snomedCT, star ws, opt (lit ''-''), star ws, lit ''^'', conceptDigits, star ws,
          pipedTerm]"

definition refset :: "jsstring \<Rightarrow> (js_error + jsstring) option" where
  "refset valueSet =
     (case exec True refsetPattern valueSet of None \<Rightarrow> None
      | Some (b, e, cs) \<Rightarrow>
          Some (Inr (js ''^ '' @ str_of (group cs 1) @ js '' |'' @
                     (if str_of (group cs 2) \<noteq> [] then trimString (str_of (group cs 2))
                      else js ''SNOMED CT reference set'') @ js ''|'')))"

text \<open>
  Patterns 5 to 9 build their result the same way: an operator prefix, the concept
  identifier, and the cleaned term or the default term.
\<close>

definition conceptResult :: "string \<Rightarrow> captures \<Rightarrow> (js_error + jsstring) option" where
  "conceptResult prefix cs =
     Some (Inr (js prefix @ str_of (group cs 1) @ js '' |'' @
                (if str_of (group cs 2) \<noteq> [] then cleanConceptTerm (trimString (str_of (group cs 2)))
                 else js ''SNOMED CT concept'') @ js ''|''))"

definition exactPattern :: re where
  \<comment> \<open>\<open>/SNOMED[\s\-]*CT[\s\(UK\)]?\s*:?\s*(\d{6,18})\s*(?:\|([^|]+)\|)?\s*(?:\(exact\)|only|self)/i\<close>\<close>
  "exactPattern =
     cat [snomedCT, star ws, conceptDigits, star ws, pipedTerm, star ws,
          alts [lit ''(exact)'', lit ''only'', lit ''self'']]"

definition exact :: "jsstring \<Rightarrow> (js_error + jsstring) option" where
  "exact valueSet =
     (case exec True exactPattern valueSet of None \<Rightarrow> None
      | Some (b, e, cs) \<Rightarrow> conceptResult [] cs)"

definition operatorPattern :: "string \<Rightarrow> re" where
  \<comment> \<open>\<open>/SNOMED[\s\-]*CT[\s\(UK\)]?\s*:?\s*-?\s*OP\s*(\d{6,18})\s*(?:\|([^|]+)\|)?/i\<close>\<close>
  "operatorPattern operator =
     cat [snomedCT, star ws, opt (lit ''-''), star ws, lit operator, star ws, conceptDigits,
          star ws, pipedTerm]"

definition descendantsInclusive :: "jsstring \<Rightarrow> (js_error + jsstring) option" where
  "descendantsInclusive valueSet =
     (case exec True (operatorPattern ''<<'') valueSet of None \<Rightarrow> None
      | Some (b, e, cs) \<Rightarrow> conceptResult ''<< '' cs)"

definition descendantsExclusive :: "jsstring \<Rightarrow> (js_error + jsstring) option" where
  "descendantsExclusive valueSet =
     (case exec True (operatorPattern ''<'') valueSet of None \<Rightarrow> None
      | Some (b, e, cs) \<Rightarrow> conceptResult ''< '' cs)"

definition ancestorsInclusive :: "jsstring \<Rightarrow> (js_error + jsstring) option" where
  "ancestorsInclusive valueSet =
     (case exec True (operatorPattern ''>>'') valueSet of None \<Rightarrow> None
      | Some (b, e, cs) \<Rightarrow> conceptResult ''>> '' cs)"

definition ancestorsExclusive :: "jsstring \<Rightarrow> (js_error + jsstring) option" where
  "ancestorsExclusive valueSet =
     (case exec True (operatorPattern ''>'') valueSet of None \<Rightarrow> None
      | Some (b, e, cs) \<Rightarrow> conceptResult ''> '' cs)"

definition fhirEclPattern :: re where
  \<comment> \<open>\<open>/snomed\.info\/sct\?fhir_vs=ecl\/(.+)/i\<close>\<close>
  "fhirEclPattern = cat [lit ''snomed.info/sct?fhir_vs=ecl/'', Grp 1 (plus Dot)]"

definition fhirEcl :: "jsstring \<Rightarrow> (js_error + jsstring) option" where
  "fhirEcl valueSet =
     (case exec True fhirEclPattern valueSet of None \<Rightarrow> None
      | Some (b, e, cs) \<Rightarrow>
          (case decodeURIComponent (str_of (group cs 1)) of
             Inl err \<Rightarrow> Some (Inl err)
           | Inr eclExpression \<Rightarrow> Some (Inr (cleanAndStandardizeEcl eclExpression))))"

definition fhirRefsetPattern :: re where
  \<comment> \<open>\<open>/snomed\.info\/sct\?fhir_vs=refset\/(\d{6,18})/i\<close>\<close>
  "fhirRefsetPattern = cat [lit ''snomed.info/sct?fhir_vs=refset/'', conceptDigits]"

definition fhirRefset :: "jsstring \<Rightarrow> (js_error + jsstring) option" where
  "fhirRefset valueSet =
     (case exec True fhirRefsetPattern valueSet of None \<Rightarrow> None
      | Some (b, e, cs) \<Rightarrow>
          Some (Inr (js ''^ '' @ str_of (group cs 1) @ js '' |SNOMED CT reference set|'')))"

definition simpleConceptPattern :: re where
  \<comment> \<open>\<open>/SNOMED[\s\-]*CT[\s\(UK\)]?\s*:?\s*(\d{6,18})/i\<close>\<close>
  "simpleConceptPattern = cat [snomedCT, star ws, conceptDigits]"

definition simpleConcept :: "jsstring \<Rightarrow> (js_error + jsstring) option" where
  "simpleConcept valueSet =
     (case exec True simpleConceptPattern valueSet of None \<Rightarrow> None
      | Some (b, e, cs) \<Rightarrow>
          Some (Inr (js ''< '' @ str_of (group cs 1) @ js '' |SNOMED CT concept|'')))"

definition multipleConceptPattern :: re where
  \<comment> \<open>\<open>/SNOMED[^:]*:\s*([\d\s,]+)/i\<close>\<close>
  "multipleConceptPattern =
     cat [lit ''SNOMED'', star (NCls [CChr 58]), lit '':'', star ws,
          Grp 1 (plus (Cls [CDig, CWs, CChr 44]))]"

fun joinOr :: "jsstring list \<Rightarrow> jsstring" where
  \<comment> \<open>\<open>expressions.join(" OR ")\<close>\<close>
  "joinOr [] = []"
| "joinOr [x] = x"
| "joinOr (x # xs) = x @ js '' OR '' @ joinOr xs"

definition multipleConcept :: "jsstring \<Rightarrow> (js_error + jsstring) option" where
  "multipleConcept valueSet =
     (case exec True multipleConceptPattern valueSet of None \<Rightarrow> None
      | Some (b, e, cs) \<Rightarrow>
          (case match_g False (Rep 6 (Some 18) dig) (str_of (group cs 1)) of
             [] \<Rightarrow> None
           | [conceptId] \<Rightarrow> Some (Inr (js ''< '' @ conceptId @ js '' |SNOMED CT concept|''))
           | conceptIds \<Rightarrow>
               Some (Inr (joinOr (map (\<lambda>conceptId. js ''< '' @ conceptId @ js '' |SNOMED CT concept|'')
                                      conceptIds)))))"

definition standaloneRefsetPattern :: re where
  \<comment> \<open>\<open>/^\^(\d{6,18})/\<close>\<close>
  "standaloneRefsetPattern = cat [Bol, lit ''^'', conceptDigits]"

definition standaloneRefset :: "jsstring \<Rightarrow> (js_error + jsstring) option" where
  "standaloneRefset valueSet =
     (case exec False standaloneRefsetPattern valueSet of None \<Rightarrow> None
      | Some (b, e, cs) \<Rightarrow>
          Some (Inr (js ''^ '' @ str_of (group cs 1) @ js '' |SNOMED CT reference set|'')))"

definition standaloneConceptPattern :: re where
  \<comment> \<open>\<open>/(?:<{1,2}|>{1,2})?\s*(\d{6,18})\s*(?:\|([^|]+)\|)?/\<close>\<close>
  "standaloneConceptPattern =
     cat [opt (Alt (Rep 1 (Some 2) (Chr 60)) (Rep 1 (Some 2) (Chr 62))), star ws, conceptDigits,
          star ws, pipedTerm]"

definition pureNumberList :: re where
  \<comment> \<open>\<open>/^[\d\s,]+$/\<close>\<close>
  "pureNumberList = cat [Bol, plus (Cls [CDig, CWs, CChr 44]), Eol]"

definition standaloneConcept :: "jsstring \<Rightarrow> (js_error + jsstring) option" where
  "standaloneConcept valueSet =
     (case exec False standaloneConceptPattern valueSet of None \<Rightarrow> None
      | Some (b, e, cs) \<Rightarrow>
          if exec False pureNumberList valueSet = None then conceptResult ''< '' cs else None)"

text \<open>
  \<open>extractSnomedEclFromValueSet\<close>: the empty result for a blank descriptor, and then the
  blocks in the script's order, each returning or falling through to the next.
\<close>

definition extractSnomedEclFromValueSet :: "jsstring \<Rightarrow> js_error + jsstring" where
  "extractSnomedEclFromValueSet valueSetString =
     (if trimString valueSetString = [] then Inr []
      else
       (case complexEcl (trimString valueSetString) of Some r \<Rightarrow> r | None \<Rightarrow>
       (case altPrefix (trimString valueSetString) of Some r \<Rightarrow> r | None \<Rightarrow>
       (case dmd (trimString valueSetString) of Some r \<Rightarrow> r | None \<Rightarrow>
       (case refset (trimString valueSetString) of Some r \<Rightarrow> r | None \<Rightarrow>
       (case exact (trimString valueSetString) of Some r \<Rightarrow> r | None \<Rightarrow>
       (case descendantsInclusive (trimString valueSetString) of Some r \<Rightarrow> r | None \<Rightarrow>
       (case descendantsExclusive (trimString valueSetString) of Some r \<Rightarrow> r | None \<Rightarrow>
       (case ancestorsInclusive (trimString valueSetString) of Some r \<Rightarrow> r | None \<Rightarrow>
       (case ancestorsExclusive (trimString valueSetString) of Some r \<Rightarrow> r | None \<Rightarrow>
       (case fhirEcl (trimString valueSetString) of Some r \<Rightarrow> r | None \<Rightarrow>
       (case fhirRefset (trimString valueSetString) of Some r \<Rightarrow> r | None \<Rightarrow>
       (case simpleConcept (trimString valueSetString) of Some r \<Rightarrow> r | None \<Rightarrow>
       (case multipleConcept (trimString valueSetString) of Some r \<Rightarrow> r | None \<Rightarrow>
       (case standaloneRefset (trimString valueSetString) of Some r \<Rightarrow> r | None \<Rightarrow>
       (case standaloneConcept (trimString valueSetString) of Some r \<Rightarrow> r | None \<Rightarrow>
        Inr []))))))))))))))))"

section \<open>Tagged values\<close>

text \<open>
  An element's \<open>TaggedValues\<close> collection is a list of tags in collection order. A value
  of more than 255 code units is stored as the sentinel \<open><memo>\<close> with the text in
  \<open>Notes\<close>. \<open>AddNew\<close> appends a tag with empty \<open>Value\<close> and \<open>Notes\<close>.
\<close>

record taggedValue =
  Name :: jsstring
  Value :: jsstring
  Notes :: jsstring

fun getTaggedValue :: "taggedValue list \<Rightarrow> jsstring \<Rightarrow> jsstring" where
  "getTaggedValue [] tagName = []"
| "getTaggedValue (tag # tags) tagName =
     (if Name tag = tagName
      then (if Value tag = js ''<memo>'' then Notes tag else Value tag)
      else getTaggedValue tags tagName)"

fun addOrUpdateTaggedValue :: "taggedValue list \<Rightarrow> jsstring \<Rightarrow> jsstring \<Rightarrow> taggedValue list" where
  "addOrUpdateTaggedValue [] tagName tagValue =
     [if length tagValue > 255
      then \<lparr>Name = tagName, Value = js ''<memo>'', Notes = tagValue\<rparr>
      else \<lparr>Name = tagName, Value = tagValue, Notes = []\<rparr>]"
| "addOrUpdateTaggedValue (tag # tags) tagName tagValue =
     (if Name tag = tagName
      then (if length tagValue > 255
            then tag\<lparr>Value := js ''<memo>'', Notes := tagValue\<rparr>
            else tag\<lparr>Value := tagValue, Notes := []\<rparr>) # tags
      else tag # addOrUpdateTaggedValue tags tagName tagValue)"

section \<open>Converting elements\<close>

text \<open>
  The script's globals \<open>conversionConfig\<close> and \<open>conversionCounter\<close>, and the model
  repository: the tagged values of every element, by element identifier. The output log
  is write-only and left out; the date that \<open>getCurrentDate\<close> reads from the clock is
  the parameter \<open>today\<close>.
\<close>

record conversionConfig =
  skipExistingEcl :: bool
  debugMode :: bool
  logNonSnomedElements :: bool

record conversionCounter =
  elementsProcessed :: nat
  conversionsPerformed :: nat
  existingEclSkipped :: nat
  nonSnomedSkipped :: nat
  errors :: nat

record state =
  tags :: "nat \<Rightarrow> taggedValue list"
  counter :: conversionCounter

definition count :: "(conversionCounter \<Rightarrow> conversionCounter) \<Rightarrow> state \<Rightarrow> state" where
  "count f st = st\<lparr>counter := f (counter st)\<rparr>"

definition writeTag :: "nat \<Rightarrow> jsstring \<Rightarrow> jsstring \<Rightarrow> state \<Rightarrow> state" where
  "writeTag element tagName tagValue st =
     st\<lparr>tags := (tags st)(element := addOrUpdateTaggedValue (tags st element) tagName tagValue)\<rparr>"

text \<open>
  \<open>convertSingleDataElement\<close>. The body runs inside \<open>try\<close>; the only exception the
  model raises is the \<open>URIError\<close> of \<open>decodeURIComponent\<close>, and the \<open>catch\<close>
  counts it. The calls into the host application are taken to succeed here; the section
  after this one adds their failures.
\<close>

definition convertSingleDataElement ::
  "conversionConfig \<Rightarrow> jsstring \<Rightarrow> nat \<Rightarrow> state \<Rightarrow> state" where
  "convertSingleDataElement cfg today element st0 =
     (let st = count (\<lambda>c. c\<lparr>elementsProcessed := elementsProcessed c + 1\<rparr>) st0;
          existingEcl = getTaggedValue (tags st element) (js ''snomedECL'');
          valueSetString = getTaggedValue (tags st element) (js ''valueSets'')
      in if existingEcl \<noteq> [] \<and> trimString existingEcl \<noteq> [] \<and> skipExistingEcl cfg
         then count (\<lambda>c. c\<lparr>existingEclSkipped := existingEclSkipped c + 1\<rparr>) st
         else if valueSetString = [] \<or> trimString valueSetString = []
         then count (\<lambda>c. c\<lparr>nonSnomedSkipped := nonSnomedSkipped c + 1\<rparr>) st
         else (case extractSnomedEclFromValueSet valueSetString of
                 Inl e \<Rightarrow> count (\<lambda>c. c\<lparr>errors := errors c + 1\<rparr>) st
               | Inr extractedEcl \<Rightarrow>
                   if extractedEcl \<noteq> [] \<and> trimString extractedEcl \<noteq> []
                   then count (\<lambda>c. c\<lparr>conversionsPerformed := conversionsPerformed c + 1\<rparr>)
                          (writeTag element (js ''eclConversionDate'') today
                            (writeTag element (js ''eclSource'') (js ''Converted from valueSets'')
                              (writeTag element (js ''snomedECL'') extractedEcl st)))
                   else count (\<lambda>c. c\<lparr>nonSnomedSkipped := nonSnomedSkipped c + 1\<rparr>) st))"

text \<open>
  The loop of \<open>convertAllDataElementsInStandard\<close> and \<open>convertAllDataElementsInModel\<close>
  over the elements found (by identifier, in the order found; an element may occur twice).
\<close>

fun convertAllDataElements ::
  "conversionConfig \<Rightarrow> jsstring \<Rightarrow> nat list \<Rightarrow> state \<Rightarrow> state" where
  "convertAllDataElements cfg today [] st = st"
| "convertAllDataElements cfg today (element # elements) st =
     convertAllDataElements cfg today elements (convertSingleDataElement cfg today element st)"

section \<open>Converting elements when host calls fail\<close>

text \<open>
  Every \<open>Repository.WriteOutput\<close> and every access to an element's \<open>TaggedValues\<close> is a
  call into the host application, and the script itself treats such calls as fallible
  (\<open>getTaggedValue\<close> and \<open>addOrUpdateTaggedValue\<close> wrap them in \<open>try\<close>). The
  functions of this section are the same functions as above with that possibility made
  explicit: \<open>faults\<close> says, for each call site met while one element is processed, whether
  the call fails there. The sites, with the lines of the script:

    \<^item> \<open>LogProcessing\<close>: the progress log of the loop (l.118, l.136);
    \<^item> \<open>LogExamining\<close> (l.146), \<open>LogSkipping\<close> (l.153), \<open>LogUpdating\<close> (l.157),
      \<open>LogNoValueSets\<close> (l.165), \<open>LogFoundValueSets\<close> (l.172), \<open>LogExtracted\<close> (l.179),
      \<open>LogAdded\<close> (l.189), \<open>LogNoExpression\<close> (l.192): the logs of the \<open>try\<close> block of
      \<open>convertSingleDataElement\<close>;
    \<^item> \<open>LogAnalyzing\<close> (l.211) and \<open>LogResult\<close> (the one log that reports the extractor's
      result, l.224 to l.405): the debug logs of \<open>extractSnomedEclFromValueSet\<close>;
    \<^item> \<open>ReadTag name\<close>: the accesses of \<open>getTaggedValue\<close> (l.529 to l.535), and
      \<open>LogWarning name\<close>: the log of its \<open>catch\<close> (l.539);
    \<^item> \<open>WriteTag name\<close>: the accesses of \<open>addOrUpdateTaggedValue\<close> (l.548 to l.575);
    \<^item> \<open>LogHandler\<close>: the log of the \<open>catch\<close> of \<open>convertSingleDataElement\<close> (l.198).

  An exception is either one that the script's own code raises (the \<open>URIError\<close> of
  \<open>decodeURIComponent\<close>) or the failure of a host call.
\<close>

datatype site =
    LogProcessing
  | LogExamining
  | ReadTag jsstring
  | LogWarning jsstring
  | LogSkipping
  | LogUpdating
  | LogNoValueSets
  | LogFoundValueSets
  | LogAnalyzing
  | LogResult
  | LogExtracted
  | WriteTag jsstring
  | LogAdded
  | LogNoExpression
  | LogHandler

datatype exn = ScriptError js_error | HostError

type_synonym faults = "site \<Rightarrow> bool"

text \<open>
  \<open>getTaggedValue\<close> swallows a failed read and returns the empty string, unless the warning
  it logs fails too. \<open>addOrUpdateTaggedValue\<close> logs a failed write and throws it again
  (l.578 to l.581), so the caller sees an exception whether or not that log succeeds; a
  failed write leaves the element's tags as they were. When \<open>debugMode\<close> is set, the
  extractor logs the trimmed descriptor, and then either raises or logs its result on every
  path.
\<close>

definition getTaggedValueF :: "faults \<Rightarrow> taggedValue list \<Rightarrow> jsstring \<Rightarrow> exn + jsstring" where
  "getTaggedValueF faults ts tagName =
     (if faults (ReadTag tagName)
      then (if faults (LogWarning tagName) then Inl HostError else Inr [])
      else Inr (getTaggedValue ts tagName))"

definition addOrUpdateTaggedValueF ::
  "faults \<Rightarrow> taggedValue list \<Rightarrow> jsstring \<Rightarrow> jsstring \<Rightarrow> exn + taggedValue list" where
  "addOrUpdateTaggedValueF faults ts tagName tagValue =
     (if faults (WriteTag tagName) then Inl HostError
      else Inr (addOrUpdateTaggedValue ts tagName tagValue))"

definition extractSnomedEclFromValueSetF ::
  "conversionConfig \<Rightarrow> faults \<Rightarrow> jsstring \<Rightarrow> exn + jsstring" where
  "extractSnomedEclFromValueSetF cfg faults valueSetString =
     (if valueSetString = [] \<or> trimString valueSetString = [] then Inr []
      else if debugMode cfg \<and> faults LogAnalyzing then Inl HostError
      else (case extractSnomedEclFromValueSet valueSetString of
              Inl e \<Rightarrow> Inl (ScriptError e)
            | Inr ecl \<Rightarrow> if debugMode cfg \<and> faults LogResult then Inl HostError else Inr ecl))"

text \<open>
  A run of statements ends with the state it has reached and, when it was interrupted, the
  exception: what was counted or written before an exception stays.
\<close>

type_synonym run = "exn option \<times> state"

definition thenDo :: "run \<Rightarrow> (state \<Rightarrow> run) \<Rightarrow> run" where
  "thenDo r f = (case r of (None, st) \<Rightarrow> f st | (Some e, st) \<Rightarrow> (Some e, st))"

definition logAt :: "faults \<Rightarrow> site \<Rightarrow> state \<Rightarrow> run" where
  "logAt faults s st = (if faults s then (Some HostError, st) else (None, st))"

definition writeTagF :: "faults \<Rightarrow> nat \<Rightarrow> jsstring \<Rightarrow> jsstring \<Rightarrow> state \<Rightarrow> run" where
  "writeTagF faults element tagName tagValue st =
     (case addOrUpdateTaggedValueF faults (tags st element) tagName tagValue of
        Inl e \<Rightarrow> (Some e, st)
      | Inr ts \<Rightarrow> (None, st\<lparr>tags := (tags st)(element := ts)\<rparr>))"

text \<open>
  The \<open>try\<close> block of \<open>convertSingleDataElement\<close> in three parts: \<open>storeExpression\<close>
  is l.179 to l.189, \<open>convertValueSets\<close> l.162 to l.195, and \<open>tryBlock\<close> the whole of
  l.143 to l.195.
\<close>

definition storeExpression :: "faults \<Rightarrow> jsstring \<Rightarrow> nat \<Rightarrow> jsstring \<Rightarrow> state \<Rightarrow> run" where
  "storeExpression faults today element extractedEcl st =
     thenDo (logAt faults LogExtracted st) (\<lambda>st.
     thenDo (writeTagF faults element (js ''snomedECL'') extractedEcl st) (\<lambda>st.
     thenDo (writeTagF faults element (js ''eclSource'') (js ''Converted from valueSets'') st) (\<lambda>st.
     thenDo (writeTagF faults element (js ''eclConversionDate'') today st) (\<lambda>st.
     logAt faults LogAdded
       (count (\<lambda>c. c\<lparr>conversionsPerformed := conversionsPerformed c + 1\<rparr>) st)))))"

definition convertValueSets ::
  "conversionConfig \<Rightarrow> jsstring \<Rightarrow> faults \<Rightarrow> nat \<Rightarrow> state \<Rightarrow> run" where
  "convertValueSets cfg today faults element st =
     (case getTaggedValueF faults (tags st element) (js ''valueSets'') of
        Inl e \<Rightarrow> (Some e, st)
      | Inr valueSetString \<Rightarrow>
          if valueSetString = [] \<or> trimString valueSetString = []
          then (if logNonSnomedElements cfg \<and> faults LogNoValueSets then (Some HostError, st)
                else (None, count (\<lambda>c. c\<lparr>nonSnomedSkipped := nonSnomedSkipped c + 1\<rparr>) st))
          else if debugMode cfg \<and> faults LogFoundValueSets then (Some HostError, st)
          else (case extractSnomedEclFromValueSetF cfg faults valueSetString of
                  Inl e \<Rightarrow> (Some e, st)
                | Inr extractedEcl \<Rightarrow>
                    if extractedEcl \<noteq> [] \<and> trimString extractedEcl \<noteq> []
                    then storeExpression faults today element extractedEcl st
                    else if logNonSnomedElements cfg \<and> faults LogNoExpression
                    then (Some HostError, st)
                    else (None, count (\<lambda>c. c\<lparr>nonSnomedSkipped := nonSnomedSkipped c + 1\<rparr>) st)))"

definition tryBlock ::
  "conversionConfig \<Rightarrow> jsstring \<Rightarrow> faults \<Rightarrow> nat \<Rightarrow> state \<Rightarrow> run" where
  "tryBlock cfg today faults element st0 =
     (let st = count (\<lambda>c. c\<lparr>elementsProcessed := elementsProcessed c + 1\<rparr>) st0
      in if debugMode cfg \<and> faults LogExamining then (Some HostError, st)
         else (case getTaggedValueF faults (tags st element) (js ''snomedECL'') of
                 Inl e \<Rightarrow> (Some e, st)
               | Inr existingEcl \<Rightarrow>
                   if existingEcl \<noteq> [] \<and> trimString existingEcl \<noteq> []
                   then (if skipExistingEcl cfg
                         then (if faults LogSkipping then (Some HostError, st)
                               else (None, count (\<lambda>c. c\<lparr>existingEclSkipped :=
                                                          existingEclSkipped c + 1\<rparr>) st))
                         else if faults LogUpdating then (Some HostError, st)
                         else convertValueSets cfg today faults element st)
                   else convertValueSets cfg today faults element st))"

text \<open>
  \<open>convertSingleDataElement\<close> with its \<open>catch\<close> (l.197 to l.200): the handler logs the
  exception and then counts it. An exception of the handler's own log leaves the function.
\<close>

definition convertSingleDataElementF ::
  "conversionConfig \<Rightarrow> jsstring \<Rightarrow> faults \<Rightarrow> nat \<Rightarrow> state \<Rightarrow> run" where
  "convertSingleDataElementF cfg today faults element st0 =
     (case tryBlock cfg today faults element st0 of
        (None, st) \<Rightarrow> (None, st)
      | (Some e, st) \<Rightarrow>
          if faults LogHandler then (Some HostError, st)
          else (None, count (\<lambda>c. c\<lparr>errors := errors c + 1\<rparr>) st))"

text \<open>
  The loop (l.116 to l.120, l.134 to l.138) over the elements found, each with the faults
  met while it is processed. The loop has no \<open>try\<close> of its own: an exception that leaves
  \<open>convertSingleDataElement\<close>, or one of the progress log, ends it.
\<close>

fun convertAllDataElementsF ::
  "conversionConfig \<Rightarrow> jsstring \<Rightarrow> (nat \<times> faults) list \<Rightarrow> state \<Rightarrow> run" where
  "convertAllDataElementsF cfg today [] st = (None, st)"
| "convertAllDataElementsF cfg today ((element, faults) # elements) st =
     (if faults LogProcessing then (Some HostError, st)
      else thenDo (convertSingleDataElementF cfg today faults element st)
             (convertAllDataElementsF cfg today elements))"

section \<open>The recognizer list\<close>

text \<open>
  The fifteen recognizers in the order of the script's blocks, and the result of running
  a list of recognizers in order: the outcome of the first one that does not fall through.
\<close>

definition recognizers :: "(jsstring \<Rightarrow> (js_error + jsstring) option) list" where
  "recognizers =
     [complexEcl, altPrefix, dmd, refset, exact, descendantsInclusive, descendantsExclusive,
      ancestorsInclusive, ancestorsExclusive, fhirEcl, fhirRefset, simpleConcept,
      multipleConcept, standaloneRefset, standaloneConcept]"

fun firstFiring ::
  "(jsstring \<Rightarrow> (js_error + jsstring) option) list \<Rightarrow> jsstring \<Rightarrow> js_error + jsstring" where
  "firstFiring [] valueSet = Inr []"
| "firstFiring (r # rs) valueSet =
     (case r valueSet of Some res \<Rightarrow> res | None \<Rightarrow> firstFiring rs valueSet)"

text \<open>
  Modelled from the spec's words (4.5, "returns the first non-empty canonical result"):
  the recognizers are tried in order and the first non-empty result is returned.
\<close>

fun firstNonEmpty ::
  "(jsstring \<Rightarrow> (js_error + jsstring) option) list \<Rightarrow> jsstring \<Rightarrow> js_error + jsstring" where
  "firstNonEmpty [] valueSet = Inr []"
| "firstNonEmpty (r # rs) valueSet =
     (case r valueSet of
        Some (Inr res) \<Rightarrow> if res \<noteq> [] then Inr res else firstNonEmpty rs valueSet
      | Some (Inl err) \<Rightarrow> Inl err
      | None \<Rightarrow> firstNonEmpty rs valueSet)"

text \<open>
  When a recognizer fires: the condition under which its block in the script returns
  instead of falling through to the next block. For most blocks it is the match of the
  block's pattern. Block 1 also asks that the captured tail passes the validity gate
  (l.222); block 2 that pattern 1 did not match and that its tail passes the gate
  (l.233, l.235); the block of the concept lists that the captured list holds at least one
  run of 6 to 18 digits (l.363); the last block that the descriptor is not a pure list of
  numbers (l.395). The conditions are listed in the order of \<open>recognizers\<close>.
\<close>

definition firing :: "(jsstring \<Rightarrow> bool) list" where
  "firing =
     [\<lambda>valueSet. case exec True complexEclPattern valueSet of None \<Rightarrow> False
         | Some (b, e, cs) \<Rightarrow> isValidEclExpression (trimString (str_of (group cs 1))),
      \<lambda>valueSet. case exec True altPrefixPattern valueSet of None \<Rightarrow> False
         | Some (b, e, cs) \<Rightarrow> exec True complexEclPattern valueSet = None
                               \<and> isValidEclExpression (trimString (str_of (group cs 2))),
      test True dmdPattern,
      test True refsetPattern,
      test True exactPattern,
      test True (operatorPattern ''<<''),
      test True (operatorPattern ''<''),
      test True (operatorPattern ''>>''),
      test True (operatorPattern ''>''),
      test True fhirEclPattern,
      test True fhirRefsetPattern,
      test True simpleConceptPattern,
      \<lambda>valueSet. case exec True multipleConceptPattern valueSet of None \<Rightarrow> False
         | Some (b, e, cs) \<Rightarrow> match_g False (Rep 6 (Some 18) dig) (str_of (group cs 1)) \<noteq> [],
      test False standaloneRefsetPattern,
      \<lambda>valueSet. test False standaloneConceptPattern valueSet
                   \<and> exec False pureNumberList valueSet = None]"

section \<open>Example repositories\<close>

text \<open>The script's configuration literal, fresh counters, and small repositories.\<close>

definition defaultConfig :: conversionConfig where
  "defaultConfig = \<lparr>skipExistingEcl = True, debugMode = True, logNonSnomedElements = False\<rparr>"

definition zeroCounter :: conversionCounter where
  "zeroCounter = \<lparr>elementsProcessed = 0, conversionsPerformed = 0, existingEclSkipped = 0,
                   nonSnomedSkipped = 0, errors = 0\<rparr>"

definition tag :: "string \<Rightarrow> string \<Rightarrow> taggedValue" where
  "tag n v = \<lparr>Name = js n, Value = js v, Notes = []\<rparr>"

definition repo :: "taggedValue list \<Rightarrow> state" where
  \<comment> \<open>a repository in which every element carries the tags \<open>ts\<close>\<close>
  "repo ts = \<lparr>tags = (\<lambda>_. ts), counter = zeroCounter\<rparr>"

definition repo2 :: "taggedValue list \<Rightarrow> taggedValue list \<Rightarrow> state" where
  \<comment> \<open>a repository in which element 0 carries the tags \<open>a\<close> and every other element \<open>b\<close>\<close>
  "repo2 a b = \<lparr>tags = (\<lambda>element. if element = 0 then a else b), counter = zeroCounter\<rparr>"

text \<open>
  Three fault plans: every host call succeeds; only the log of the handler of
  \<open>convertSingleDataElement\<close> fails; only the write of the tag \<open>eclSource\<close> fails.
\<close>

definition noFaults :: faults where
  "noFaults s = False"

definition handlerLogFails :: faults where
  "handlerLogFails s = (s = LogHandler)"

definition sourceWriteFails :: faults where
  "sourceWriteFails s = (s = WriteTag (js ''eclSource''))"

section \<open>Descriptions of the validity gate's tests\<close>

text \<open>
  What the three tests of \<open>isValidEclExpression\<close> look for, said without regular
  expressions. \<open>anywhere P s\<close>: \<open>P\<close> holds of the text from some position of \<open>s\<close>
  on. \<open>startsWithCI kw s\<close>: \<open>s\<close> begins with \<open>kw\<close>, letter case ignored.
\<close>

fun anywhere :: "(jsstring \<Rightarrow> bool) \<Rightarrow> jsstring \<Rightarrow> bool" where
  "anywhere P [] = P []"
| "anywhere P (c # cs) = (P (c # cs) \<or> anywhere P cs)"

fun startsWithCI :: "jsstring \<Rightarrow> jsstring \<Rightarrow> bool" where
  "startsWithCI [] s = True"
| "startsWithCI (k # ks) [] = False"
| "startsWithCI (k # ks) (c # cs) = (canon k = canon c \<and> startsWithCI ks cs)"

text \<open>
  \<open>joinAt kw r\<close>: \<open>r\<close> begins with the keyword, and white space follows it.
  \<open>digitFirst u\<close>: \<open>u\<close> begins with a digit.
\<close>

definition joinAt :: "jsstring \<Rightarrow> jsstring \<Rightarrow> bool" where
  "joinAt kw r = (startsWithCI kw r \<and> (case drop (length kw) r of [] \<Rightarrow> False | w # _ \<Rightarrow> isWhiteSpace w))"

definition digitFirst :: "jsstring \<Rightarrow> bool" where
  "digitFirst u = (case u of [] \<Rightarrow> False | d # _ \<Rightarrow> isDigit d)"

text \<open>
  An operator character (\<open><\<close>, \<open>>\<close>, \<open>^\<close>); a keyword \<open>AND\<close>, \<open>OR\<close> or
  \<open>MINUS\<close> in any letter case, anywhere; six digits in a row; a keyword \<open>or\<close>,
  \<open>and\<close> or \<open>minus\<close> with white space on both sides; an operator character followed,
  after optional white space, by a digit.
\<close>

definition containsOperator :: "jsstring \<Rightarrow> bool" where
  "containsOperator s = list_ex (\<lambda>c. c = 60 \<or> c = 62 \<or> c = 94) s"

definition containsKeyword :: "jsstring \<Rightarrow> bool" where
  "containsKeyword s =
     anywhere (\<lambda>t. startsWithCI (js ''AND'') t \<or> startsWithCI (js ''OR'') t
                    \<or> startsWithCI (js ''MINUS'') t) s"

definition containsDigitRun :: "jsstring \<Rightarrow> bool" where
  "containsDigitRun s = anywhere (\<lambda>t. 6 \<le> length (takeWhile isDigit t)) s"

definition containsKeywordJoin :: "jsstring \<Rightarrow> bool" where
  "containsKeywordJoin s =
     anywhere (\<lambda>t. case t of [] \<Rightarrow> False
                    | w # r \<Rightarrow> isWhiteSpace w \<and> (joinAt (js ''or'') r \<or> joinAt (js ''and'') r
                                                  \<or> joinAt (js ''minus'') r)) s"

definition containsOperatorDigit :: "jsstring \<Rightarrow> bool" where
  "containsOperatorDigit s =
     anywhere (\<lambda>t. case t of [] \<Rightarrow> False
                    | c # r \<Rightarrow> (c = 60 \<or> c = 62 \<or> c = 94)
                               \<and> digitFirst (dropWhile isWhiteSpace r)) s"

text \<open>
  The digit runs of a text: the lengths of its maximal blocks of consecutive digits, from
  left to right. \<open>containsIdRun\<close>: one of them has 6 to 18 digits. \<open>noLongDigitRun\<close>:
  none of them has more than 18 digits.
\<close>

fun runs :: "nat \<Rightarrow> jsstring \<Rightarrow> nat list" where
  "runs n [] = (if n = 0 then [] else [n])"
| "runs n (c # cs) =
     (if isDigit c then runs (Suc n) cs
      else if n = 0 then runs 0 cs else n # runs 0 cs)"

definition digitRuns :: "jsstring \<Rightarrow> nat list" where
  "digitRuns s = runs 0 s"

definition containsIdRun :: "jsstring \<Rightarrow> bool" where
  "containsIdRun s = list_ex (\<lambda>n. 6 \<le> n \<and> n \<le> 18) (digitRuns s)"

definition noLongDigitRun :: "jsstring \<Rightarrow> bool" where
  "noLongDigitRun s = list_all (\<lambda>n. n \<le> 18) (digitRuns s)"

text \<open>
  Modelled from the spec's words (4.4): an operator token or logical keyword, a numeric run
  of 6 to 18 digits, and an explicit logical join or more than 20 characters.
\<close>

definition isPlausibleComplexExpression :: "jsstring \<Rightarrow> bool" where
  "isPlausibleComplexExpression text =
     ((containsOperator text \<or> containsKeyword text) \<and> containsIdRun text \<and>
      (containsKeywordJoin text \<or> length text > 20))"

section \<open>Description of the FHIR ECL value-set URL\<close>




section \<open>Descriptions of the canonicalizer's white-space passes\<close>


fun single :: "jsstring \<Rightarrow> bool" where
  "single [] = True"
| "single (c # cs) =
     ((isWhiteSpace c \<longrightarrow> c = 32 \<and> (case cs of [] \<Rightarrow> True | d # _ \<Rightarrow> \<not> isWhiteSpace d))
      \<and> single cs)"

fun trimEnd :: "jsstring \<Rightarrow> jsstring" where
  "trimEnd [] = []"
| "trimEnd (c # cs) = (if list_all isWhiteSpace (c # cs) then [] else c # trimEnd cs)"


section \<open>Basic facts\<close>

lemma trimString_Nil: "trimString [] = []"
  by (simp add: trimString_def)

lemma extract_firstFiring:
  "extractSnomedEclFromValueSet v =
     (if trimString v = [] then Inr [] else firstFiring recognizers (trimString v))"
  by (simp add: extractSnomedEclFromValueSet_def recognizers_def cong: option.case_cong)

lemma firstFiring_nth:
  "i < length rs \<Longrightarrow> (rs ! i) x = Some res \<Longrightarrow> (\<forall>j<i. (rs ! j) x = None) \<Longrightarrow>
     firstFiring rs x = res"
proof (induction rs arbitrary: i)
  case Nil
  then show ?case by simp
next
  case (Cons r rs)
  show ?case
  proof (cases i)
    case 0
    with Cons.prems show ?thesis by simp
  next
    case (Suc k)
    with Cons.prems have "r x = None" by auto
    moreover from Suc Cons.prems have "firstFiring rs x = res"
      by (intro Cons.IH[of k]) auto
    ultimately show ?thesis by simp
  qed
qed

lemma firstFiring_none:
  "(\<forall>r \<in> set rs. r x = None) \<Longrightarrow> firstFiring rs x = Inr []"
  by (induction rs) auto


text \<open>The definitions that evaluating a recognizer on a concrete string unfolds.\<close>

lemmas ev = js_def trimString_def replace_g_def plus_def star_def opt_def ws_def dig_def cat_def
  lit_def chr_def isWhiteSpace_def isDigit_def isLineTerminator_def canon_def exec_def test_def
  group_def match_g_def stripSpaces_def cleanAndStandardizeEcl_def cleanConceptTerm_def
  isValidEclExpression_def hasEclOperators_def hasConceptIds_def hasLogicalStructure_def
  upperOr_def upperAnd_def upperMinus_def spaceLt_def spaceGt_def spaceCaret_def stripTags_def
  collapseSpaces_def str_of_def cls_ws_def snomedCT_def pipedTerm_def conceptDigits_def
  complexEclPattern_def complexEcl_def altPrefixPattern_def altPrefix_def dmdPattern_def dmd_def
  refsetPattern_def refset_def conceptResult_def exactPattern_def exact_def operatorPattern_def
  descendantsInclusive_def descendantsExclusive_def ancestorsInclusive_def
  ancestorsExclusive_def fhirEclPattern_def fhirEcl_def fhirRefsetPattern_def fhirRefset_def
  simpleConceptPattern_def simpleConcept_def multipleConceptPattern_def multipleConcept_def
  standaloneRefsetPattern_def standaloneRefset_def standaloneConceptPattern_def
  pureNumberList_def standaloneConcept_def hexDigit_def utf16_def andThen_def

lemma js_eq_iff: "(js a = js b) = (a = b)"
proof -
  have "inj (of_char :: char \<Rightarrow> nat)" by (rule injI) simp
  then show ?thesis unfolding js_def by (simp add: inj_map_eq_map)
qed

lemma js_Nil_iff: "(js a = []) = (a = [])" "([] = js a) = (a = [])"
  by (auto simp: js_def)

section \<open>When a recognizer fires\<close>

text \<open>
  Each condition of \<open>firing\<close> holds exactly when the recognizer at the same place in
  \<open>recognizers\<close> returns.
\<close>

lemma fires_complexEcl:
  "(case exec True complexEclPattern v of None \<Rightarrow> False
    | Some (b, e, cs) \<Rightarrow> isValidEclExpression (trimString (str_of (group cs 1))))
   = (complexEcl v \<noteq> None)"
  by (simp add: complexEcl_def split: option.splits)

lemma fires_altPrefix:
  "(case exec True altPrefixPattern v of None \<Rightarrow> False
    | Some (b, e, cs) \<Rightarrow> exec True complexEclPattern v = None
                          \<and> isValidEclExpression (trimString (str_of (group cs 2))))
   = (altPrefix v \<noteq> None)"
  by (simp add: altPrefix_def split: option.splits)

lemma fires_dmd: "test True dmdPattern v = (dmd v \<noteq> None)"
  by (simp add: dmd_def test_def split: option.splits)

lemma fires_refset: "test True refsetPattern v = (refset v \<noteq> None)"
  by (simp add: refset_def test_def split: option.splits)

lemma fires_exact: "test True exactPattern v = (exact v \<noteq> None)"
  by (simp add: exact_def conceptResult_def test_def split: option.splits)

lemma fires_descendantsInclusive:
  "test True (operatorPattern ''<<'') v = (descendantsInclusive v \<noteq> None)"
  by (simp add: descendantsInclusive_def conceptResult_def test_def split: option.splits)

lemma fires_descendantsExclusive:
  "test True (operatorPattern ''<'') v = (descendantsExclusive v \<noteq> None)"
  by (simp add: descendantsExclusive_def conceptResult_def test_def split: option.splits)

lemma fires_ancestorsInclusive:
  "test True (operatorPattern ''>>'') v = (ancestorsInclusive v \<noteq> None)"
  by (simp add: ancestorsInclusive_def conceptResult_def test_def split: option.splits)

lemma fires_ancestorsExclusive:
  "test True (operatorPattern ''>'') v = (ancestorsExclusive v \<noteq> None)"
  by (simp add: ancestorsExclusive_def conceptResult_def test_def split: option.splits)

lemma fires_fhirEcl: "test True fhirEclPattern v = (fhirEcl v \<noteq> None)"
  by (simp add: fhirEcl_def test_def split: option.splits sum.splits)

lemma fires_fhirRefset: "test True fhirRefsetPattern v = (fhirRefset v \<noteq> None)"
  by (simp add: fhirRefset_def test_def split: option.splits)

lemma fires_simpleConcept: "test True simpleConceptPattern v = (simpleConcept v \<noteq> None)"
  by (simp add: simpleConcept_def test_def split: option.splits)

lemma fires_multipleConcept:
  "(case exec True multipleConceptPattern v of None \<Rightarrow> False
    | Some (b, e, cs) \<Rightarrow> match_g False (Rep 6 (Some 18) dig) (str_of (group cs 1)) \<noteq> [])
   = (multipleConcept v \<noteq> None)"
  by (simp add: multipleConcept_def split: option.splits list.splits)

lemma fires_standaloneRefset:
  "test False standaloneRefsetPattern v = (standaloneRefset v \<noteq> None)"
  by (simp add: standaloneRefset_def test_def split: option.splits)

lemma fires_standaloneConcept:
  "(test False standaloneConceptPattern v \<and> exec False pureNumberList v = None)
   = (standaloneConcept v \<noteq> None)"
  by (simp add: standaloneConcept_def conceptResult_def test_def split: option.splits)

lemma firing_map:
  "map (\<lambda>f. f v) firing = map (\<lambda>r. r v \<noteq> None) recognizers"
  unfolding firing_def recognizers_def
  by (simp only: list.map fires_complexEcl fires_altPrefix fires_dmd fires_refset fires_exact
        fires_descendantsInclusive fires_descendantsExclusive fires_ancestorsInclusive
        fires_ancestorsExclusive fires_fhirEcl fires_fhirRefset fires_simpleConcept
        fires_multipleConcept fires_standaloneRefset fires_standaloneConcept)

lemma length_firing: "length firing = length recognizers"
  using arg_cong[OF firing_map, of length] by simp

lemma firing_iff:
  assumes "i < length recognizers"
  shows "(firing ! i) v = ((recognizers ! i) v \<noteq> None)"
proof -
  have "(firing ! i) v = map (\<lambda>f. f v) firing ! i"
    using assms by (simp add: length_firing)
  also have "\<dots> = map (\<lambda>r. r v \<noteq> None) recognizers ! i" by (simp only: firing_map)
  also have "\<dots> = ((recognizers ! i) v \<noteq> None)" using assms by simp
  finally show ?thesis .
qed

section \<open>Host faults: basic facts\<close>

text \<open>
  When no host call fails, the functions with faults are the functions without them.
\<close>

lemma thenDo_None: "thenDo (None, st) f = f st"
  by (simp add: thenDo_def)

lemma thenDo_Some: "thenDo (Some e, st) f = (Some e, st)"
  by (simp add: thenDo_def)

lemma storeExpression_noFaults:
  "storeExpression noFaults today element extractedEcl st =
     (None, count (\<lambda>c. c\<lparr>conversionsPerformed := conversionsPerformed c + 1\<rparr>)
              (writeTag element (js ''eclConversionDate'') today
                (writeTag element (js ''eclSource'') (js ''Converted from valueSets'')
                  (writeTag element (js ''snomedECL'') extractedEcl st))))"
  by (simp add: storeExpression_def logAt_def writeTagF_def addOrUpdateTaggedValueF_def
        noFaults_def thenDo_None writeTag_def)

lemma extractF_noFaults:
  "extractSnomedEclFromValueSetF cfg noFaults valueSetString =
     (case extractSnomedEclFromValueSet valueSetString of
        Inl e \<Rightarrow> Inl (ScriptError e) | Inr ecl \<Rightarrow> Inr ecl)"
proof (cases "valueSetString = [] \<or> trimString valueSetString = []")
  case True
  then have "trimString valueSetString = []" using trimString_Nil by auto
  then show ?thesis
    by (simp add: extractSnomedEclFromValueSetF_def extractSnomedEclFromValueSet_def)
next
  case False
  then show ?thesis
    by (simp add: extractSnomedEclFromValueSetF_def noFaults_def split: sum.splits)
qed

lemma convertSingle_noFaults:
  "convertSingleDataElementF cfg today noFaults element st =
     (None, convertSingleDataElement cfg today element st)"
proof -
  let ?st = "count (\<lambda>c. c\<lparr>elementsProcessed := elementsProcessed c + 1\<rparr>) st"
  let ?rest = "if getTaggedValue (tags ?st element) (js ''valueSets'') = []
                  \<or> trimString (getTaggedValue (tags ?st element) (js ''valueSets'')) = []
               then count (\<lambda>c. c\<lparr>nonSnomedSkipped := nonSnomedSkipped c + 1\<rparr>) ?st
               else (case extractSnomedEclFromValueSet
                            (getTaggedValue (tags ?st element) (js ''valueSets'')) of
                 Inl e \<Rightarrow> count (\<lambda>c. c\<lparr>errors := errors c + 1\<rparr>) ?st
               | Inr extractedEcl \<Rightarrow>
                   if extractedEcl \<noteq> [] \<and> trimString extractedEcl \<noteq> []
                   then count (\<lambda>c. c\<lparr>conversionsPerformed := conversionsPerformed c + 1\<rparr>)
                          (writeTag element (js ''eclConversionDate'') today
                            (writeTag element (js ''eclSource'') (js ''Converted from valueSets'')
                              (writeTag element (js ''snomedECL'') extractedEcl ?st)))
                   else count (\<lambda>c. c\<lparr>nonSnomedSkipped := nonSnomedSkipped c + 1\<rparr>) ?st)"
  have tail: "(case convertValueSets cfg today noFaults element ?st of
                   (None, st') \<Rightarrow> (None, st')
                 | (Some e, st') \<Rightarrow> (None, count (\<lambda>c. c\<lparr>errors := errors c + 1\<rparr>) st'))
                = (None, ?rest)"
    unfolding convertValueSets_def getTaggedValueF_def extractF_noFaults storeExpression_noFaults
    by (simp add: noFaults_def split: sum.splits)
  have base: "convertSingleDataElement cfg today element st =
      (if getTaggedValue (tags ?st element) (js ''snomedECL'') \<noteq> []
          \<and> trimString (getTaggedValue (tags ?st element) (js ''snomedECL'')) \<noteq> []
          \<and> skipExistingEcl cfg
       then count (\<lambda>c. c\<lparr>existingEclSkipped := existingEclSkipped c + 1\<rparr>) ?st
       else ?rest)"
    by (simp only: convertSingleDataElement_def Let_def)
  have handler: "convertSingleDataElementF cfg today noFaults element st =
      (case tryBlock cfg today noFaults element st of
         (None, st') \<Rightarrow> (None, st')
       | (Some e, st') \<Rightarrow> (None, count (\<lambda>c. c\<lparr>errors := errors c + 1\<rparr>) st'))"
    by (simp add: convertSingleDataElementF_def noFaults_def split: prod.splits option.splits)
  have body: "tryBlock cfg today noFaults element st =
      (if getTaggedValue (tags ?st element) (js ''snomedECL'') \<noteq> []
          \<and> trimString (getTaggedValue (tags ?st element) (js ''snomedECL'')) \<noteq> []
          \<and> skipExistingEcl cfg
       then (None, count (\<lambda>c. c\<lparr>existingEclSkipped := existingEclSkipped c + 1\<rparr>) ?st)
       else convertValueSets cfg today noFaults element ?st)"
    by (simp add: tryBlock_def getTaggedValueF_def Let_def noFaults_def)
  show ?thesis
  proof (cases "getTaggedValue (tags ?st element) (js ''snomedECL'') \<noteq> []
          \<and> trimString (getTaggedValue (tags ?st element) (js ''snomedECL'')) \<noteq> []
          \<and> skipExistingEcl cfg")
    case True
    then show ?thesis unfolding handler body base by simp
  next
    case False
    then show ?thesis unfolding handler body base by (simp only: if_False tail)
  qed
qed

lemma convertAll_noFaults:
  "convertAllDataElementsF cfg today (map (\<lambda>element. (element, noFaults)) elements) st =
     (None, convertAllDataElements cfg today elements st)"
proof (induction elements arbitrary: st)
  case Nil
  show ?case by simp
next
  case (Cons element elements)
  have "\<not> noFaults LogProcessing" by (simp add: noFaults_def)
  then show ?case by (simp add: convertSingle_noFaults thenDo_None Cons.IH)
qed

lemma convertAllF_append:
  "convertAllDataElementsF cfg today (xs @ ys) st =
     thenDo (convertAllDataElementsF cfg today xs st) (convertAllDataElementsF cfg today ys)"
proof (induction xs arbitrary: st)
  case Nil
  show ?case by (simp add: thenDo_None)
next
  case (Cons x xs)
  obtain element faults where x: "x = (element, faults)" by (cases x)
  show ?case
  proof (cases "faults LogProcessing")
    case True
    then show ?thesis by (simp add: x thenDo_Some)
  next
    case False
    obtain r st' where r: "convertSingleDataElementF cfg today faults element st = (r, st')"
      by (cases "convertSingleDataElementF cfg today faults element st")
    show ?thesis
      using False Cons.IH[of st']
      by (cases r) (simp_all add: x r thenDo_None thenDo_Some)
  qed
qed

lemma storeExpression_counters:
  assumes "storeExpression faults today element extractedEcl st = (r, st')"
  shows "elementsProcessed (counter st') = elementsProcessed (counter st)
       \<and> errors (counter st') = errors (counter st)"
  using assms
  by (auto simp: storeExpression_def logAt_def writeTagF_def addOrUpdateTaggedValueF_def
        thenDo_def count_def split: if_splits)

lemma convertValueSets_counters:
  assumes "convertValueSets cfg today faults element st = (r, st')"
  shows "elementsProcessed (counter st') = elementsProcessed (counter st)
       \<and> errors (counter st') = errors (counter st)"
  using assms storeExpression_counters[of faults today element _ st r st']
  by (auto simp: convertValueSets_def count_def split: sum.splits if_splits)

lemma tryBlock_counters:
  assumes "tryBlock cfg today faults element st = (r, st')"
  shows "elementsProcessed (counter st') = elementsProcessed (counter st) + 1
       \<and> errors (counter st') = errors (counter st)"
proof -
  let ?st = "count (\<lambda>c. c\<lparr>elementsProcessed := elementsProcessed c + 1\<rparr>) st"
  have c: "elementsProcessed (counter ?st) = elementsProcessed (counter st) + 1"
          "errors (counter ?st) = errors (counter st)"
    by (simp_all add: count_def)
  from assms consider "st' = ?st"
    | "st' = count (\<lambda>c. c\<lparr>existingEclSkipped := existingEclSkipped c + 1\<rparr>) ?st"
    | "convertValueSets cfg today faults element ?st = (r, st')"
    by (auto simp: tryBlock_def Let_def split: sum.splits if_splits)
  then show ?thesis
  proof cases
    case 1
    with c show ?thesis by simp
  next
    case 2
    with c show ?thesis by (simp add: count_def)
  next
    case 3
    from convertValueSets_counters[OF 3] c show ?thesis by simp
  qed
qed

lemma convertSingleF_completes:
  assumes "\<not> faults LogHandler"
  shows "fst (convertSingleDataElementF cfg today faults element st) = None
       \<and> elementsProcessed (counter (snd (convertSingleDataElementF cfg today faults element st)))
           = elementsProcessed (counter st) + 1"
proof -
  obtain r st' where t: "tryBlock cfg today faults element st = (r, st')"
    by (cases "tryBlock cfg today faults element st")
  from tryBlock_counters[OF t] assms show ?thesis
    by (cases r) (simp_all add: convertSingleDataElementF_def t count_def)
qed

lemma convertAllF_completes:
  assumes "\<forall>p \<in> set batch. \<not> snd p LogProcessing \<and> \<not> snd p LogHandler"
  shows "fst (convertAllDataElementsF cfg today batch st) = None
       \<and> elementsProcessed (counter (snd (convertAllDataElementsF cfg today batch st)))
           = elementsProcessed (counter st) + length batch"
  using assms
proof (induction batch arbitrary: st)
  case Nil
  show ?case by simp
next
  case (Cons x xs)
  obtain element faults where x: "x = (element, faults)" by (cases x)
  from Cons.prems x have f: "\<not> faults LogProcessing" "\<not> faults LogHandler"
    and rest: "\<forall>p \<in> set xs. \<not> snd p LogProcessing \<and> \<not> snd p LogHandler"
    by auto
  obtain r st' where s: "convertSingleDataElementF cfg today faults element st = (r, st')"
    by (cases "convertSingleDataElementF cfg today faults element st")
  from convertSingleF_completes[where faults=faults and cfg=cfg and today=today
         and element=element and st=st, OF f(2)] s
  have r: "r = None"
    and e: "elementsProcessed (counter st') = elementsProcessed (counter st) + 1"
    by simp_all
  from Cons.IH[OF rest, of st'] e show ?case
    by (simp add: x f(1) s r thenDo_None)
qed

section \<open>The matcher on the gate's patterns\<close>

lemma all_le_Suc: "(\<forall>k\<le>Suc n. P k) = (P 0 \<and> (\<forall>k\<le>n. P (Suc k)))"
  by (metis Suc_le_mono le0 not0_implies_Suc)

lemma ex_le_Suc: "(\<exists>k\<le>Suc n. P k) = (P 0 \<or> (\<exists>k\<le>n. P (Suc k)))"
  using all_le_Suc[of n "\<lambda>k. \<not> P k"] by blast

lemma search_None_iff:
  "search ci r p s = None \<longleftrightarrow> (\<forall>k\<le>length s. m ci r (p + k, drop k s, []) = [])"
proof (induction s arbitrary: p)
  case Nil
  then show ?case by (simp split: list.splits)
next
  case (Cons x xs)
  show ?case
    by (simp add: all_le_Suc Cons.IH split: list.splits)
qed

lemma test_iff: "test ci r s \<longleftrightarrow> (\<exists>k\<le>length s. m ci r (k, drop k s, []) \<noteq> [])"
  using search_None_iff[of ci r 0 s] by (auto simp: test_def exec_def)

lemma anywhere_iff: "anywhere P s \<longleftrightarrow> (\<exists>k\<le>length s. P (drop k s))"
  by (induction s) (simp_all add: ex_le_Suc)

lemma test_anywhere:
  assumes "\<And>p t. (m ci r (p, t, []) \<noteq> []) = P t"
  shows "test ci r s = anywhere P s"
  by (simp add: test_iff anywhere_iff assms)

lemma rep_single:
  assumes single: "\<And>p s cs. m ci c (p, s, cs) =
            (case s of [] \<Rightarrow> [] | x # xs \<Rightarrow> if P x then [(Suc p, xs, cs)] else [])"
    and "case hi of None \<Rightarrow> True | Some h \<Rightarrow> lo \<le> h"
  shows "set (m ci (Rep lo hi c) (p, s, cs)) =
           {(p + k, drop k s, cs) |k. lo \<le> k \<and> (case hi of None \<Rightarrow> True | Some h \<Rightarrow> k \<le> h)
                                        \<and> k \<le> length (takeWhile P s)}"
  using assms(2)
proof (induction s arbitrary: lo hi p)
  case Nil
  then show ?case by (auto simp: single split: option.splits)
next
  case (Cons x xs)
  show ?case
  proof (cases "hi = Some 0")
    case True
    with Cons.prems show ?thesis by auto
  next
    case False
    show ?thesis
    proof (cases "P x")
      case nP: False
      with False show ?thesis by (auto simp: single split: option.splits)
    next
      case True
      have ok: "case map_option (\<lambda>h. h - 1) hi of None \<Rightarrow> True | Some h \<Rightarrow> lo - 1 \<le> h"
        using Cons.prems by (auto split: option.splits)
      have step: "set (m ci (Rep lo hi c) (p, x # xs, cs)) =
              set (m ci (Rep (lo - 1) (map_option (\<lambda>h. h - 1) hi) c) (Suc p, xs, cs))
              \<union> (if lo = 0 then {(p, x # xs, cs)} else {})"
        using False True by (simp add: single)
      show ?thesis
        unfolding step Cons.IH[OF ok]
      proof (intro set_eqI iffI, goal_cases)
        case (1 st)
        then show ?case
        proof
          assume "st \<in> {(Suc p + k, drop k xs, cs) |k.
                    lo - 1 \<le> k \<and> (case map_option (\<lambda>h. h - 1) hi of None \<Rightarrow> True | Some h \<Rightarrow> k \<le> h)
                    \<and> k \<le> length (takeWhile P xs)}"
          then obtain k where k: "st = (Suc p + k, drop k xs, cs)" "lo - 1 \<le> k"
            "case map_option (\<lambda>h. h - 1) hi of None \<Rightarrow> True | Some h \<Rightarrow> k \<le> h"
            "k \<le> length (takeWhile P xs)" by blast
          have "st = (p + Suc k, drop (Suc k) (x # xs), cs)" using k(1) by simp
          moreover have "lo \<le> Suc k" using k(2) by simp
          moreover have "case hi of None \<Rightarrow> True | Some h \<Rightarrow> Suc k \<le> h"
            using k(3) False by (auto split: option.splits)
          moreover have "Suc k \<le> length (takeWhile P (x # xs))" using k(4) True by simp
          ultimately show ?thesis by blast
        next
          assume "st \<in> (if lo = 0 then {(p, x # xs, cs)} else {})"
          then have "lo = 0" "st = (p + 0, drop 0 (x # xs), cs)" by (auto split: if_splits)
          then show ?thesis using Cons.prems
            by (intro CollectI exI[of _ 0]) (auto split: option.splits)
        qed
      next
        case (2 st)
        then obtain k where k: "st = (p + k, drop k (x # xs), cs)" "lo \<le> k"
            "case hi of None \<Rightarrow> True | Some h \<Rightarrow> k \<le> h"
            "k \<le> length (takeWhile P (x # xs))" by blast
        show ?case
        proof (cases k)
          case 0
          with k show ?thesis by simp
        next
          case (Suc j)
          have "st = (Suc p + j, drop j xs, cs)" using k(1) Suc by simp
          moreover have "lo - 1 \<le> j" using k(2) Suc by simp
          moreover have "case map_option (\<lambda>h. h - 1) hi of None \<Rightarrow> True | Some h \<Rightarrow> j \<le> h"
            using k(3) Suc by (auto split: option.splits)
          moreover have "j \<le> length (takeWhile P xs)" using k(4) Suc True by simp
          ultimately show ?thesis by blast
        qed
      qed
    qed
  qed
qed

lemma single_Chr:
  "m ci (Chr a) (p, s, cs) =
     (case s of [] \<Rightarrow> [] | x # xs \<Rightarrow> if item_match ci (CChr a) x then [(Suc p, xs, cs)] else [])"
  by simp

lemma single_Cls:
  "m ci (Cls is) (p, s, cs) =
     (case s of [] \<Rightarrow> []
      | x # xs \<Rightarrow> if list_ex (\<lambda>i. item_match ci i x) is then [(Suc p, xs, cs)] else [])"
  by simp

lemma canon_ascii_nonletter:
  "a < 97 \<Longrightarrow> (a < 65 \<or> 90 < a) \<Longrightarrow> (canon a = canon x) = (x = a)"
  by (auto simp: canon_def)

lemma m_lit_set:
  "set (m True (cat (map Chr kw)) (p, t, cs)) =
     (if startsWithCI kw t then {(p + length kw, drop (length kw) t, cs)} else {})"
proof (induction kw arbitrary: p t)
  case Nil
  then show ?case by (simp add: cat_def)
next
  case (Cons k ks)
  have IH: "\<And>p t. set (m True (foldr Cat (map Chr ks) Eps) (p, t, cs)) =
     (if startsWithCI ks t then {(p + length ks, drop (length ks) t, cs)} else {})"
    using Cons.IH by (simp add: cat_def)
  show ?case
    by (cases t) (simp_all add: cat_def IH)
qed

lemma rep_unbounded:
  assumes "\<And>p s cs. m ci c (p, s, cs) =
            (case s of [] \<Rightarrow> [] | x # xs \<Rightarrow> if P x then [(Suc p, xs, cs)] else [])"
  shows "set (m ci (Rep lo None c) (p, s, cs)) =
           {(p + k, drop k s, cs) |k. lo \<le> k \<and> k \<le> length (takeWhile P s)}"
proof -
  have "set (m ci (Rep lo None c) (p, s, cs)) =
           {(p + k, drop k s, cs) |k. lo \<le> k \<and> (case None of None \<Rightarrow> True | Some h \<Rightarrow> k \<le> h)
                                        \<and> k \<le> length (takeWhile P s)}"
    by (rule rep_single[OF assms]) simp
  then show ?thesis by (simp only: option.case simp_thms)
qed

lemma rep_bounded:
  assumes "\<And>p s cs. m ci c (p, s, cs) =
            (case s of [] \<Rightarrow> [] | x # xs \<Rightarrow> if P x then [(Suc p, xs, cs)] else [])"
    and "lo \<le> h"
  shows "set (m ci (Rep lo (Some h) c) (p, s, cs)) =
           {(p + k, drop k s, cs) |k. lo \<le> k \<and> k \<le> h \<and> k \<le> length (takeWhile P s)}"
proof -
  have "set (m ci (Rep lo (Some h) c) (p, s, cs)) =
           {(p + k, drop k s, cs) |k. lo \<le> k \<and> (case Some h of None \<Rightarrow> True | Some h \<Rightarrow> k \<le> h)
                                        \<and> k \<le> length (takeWhile P s)}"
    by (rule rep_single[OF assms(1)]) (simp add: assms(2))
  then show ?thesis by (simp only: option.case)
qed

lemma single_ws:
  "m ci ws (p, s, cs) =
     (case s of [] \<Rightarrow> [] | x # xs \<Rightarrow> if isWhiteSpace x then [(Suc p, xs, cs)] else [])"
  by (cases s) (simp_all add: ws_def)

lemma single_dig:
  "m ci dig (p, s, cs) =
     (case s of [] \<Rightarrow> [] | x # xs \<Rightarrow> if isDigit x then [(Suc p, xs, cs)] else [])"
  by (cases s) (simp_all add: dig_def)

lemma hasConceptIds_iff:
  "hasConceptIds s = anywhere (\<lambda>t. 6 \<le> length (takeWhile isDigit t)) s"
  unfolding hasConceptIds_def
proof (rule test_anywhere)
  fix p t
  have "set (m False (Rep 6 (Some 18) dig) (p, t, [])) =
     {(p + k, drop k t, []) |k. 6 \<le> k \<and> k \<le> 18 \<and> k \<le> length (takeWhile isDigit t)}"
    by (rule rep_bounded[OF single_dig]) simp
  moreover have "({(p + k, drop k t, []) |k. 6 \<le> k \<and> k \<le> 18 \<and> k \<le> length (takeWhile isDigit t)} \<noteq> {})
        = (6 \<le> length (takeWhile isDigit t))"
  proof
    assume "{(p + k, drop k t, []) |k. 6 \<le> k \<and> k \<le> 18 \<and> k \<le> length (takeWhile isDigit t)} \<noteq> {}"
    then obtain k where "6 \<le> k" "k \<le> length (takeWhile isDigit t)" by blast
    then show "6 \<le> length (takeWhile isDigit t)" by simp
  next
    assume "6 \<le> length (takeWhile isDigit t)"
    then have "(p + 6, drop 6 t, []) \<in> {(p + k, drop k t, []) |k. 6 \<le> k \<and> k \<le> 18 \<and> k \<le> length (takeWhile isDigit t)}"
      by (intro CollectI exI[of _ 6]) simp
    then show "{(p + k, drop k t, []) |k. 6 \<le> k \<and> k \<le> 18 \<and> k \<le> length (takeWhile isDigit t)} \<noteq> {}"
      by blast
  qed
  ultimately have "(set (m False (Rep 6 (Some 18) dig) (p, t, [])) \<noteq> {})
      = (6 \<le> length (takeWhile isDigit t))"
    by (simp only:)
  then show "(m False (Rep 6 (Some 18) dig) (p, t, []) \<noteq> []) = (6 \<le> length (takeWhile isDigit t))"
    by (simp only: set_empty)
qed

lemma m_Cat_nonempty:
  "(m ci (Cat a b) st \<noteq> []) = (\<exists>st1\<in>set (m ci a st). m ci b st1 \<noteq> [])"
  by simp

lemma rep_ws_then:
  "(m ci (Cat (Rep lo None ws) b) (p, s, cs) \<noteq> []) =
     (\<exists>k. lo \<le> k \<and> k \<le> length (takeWhile isWhiteSpace s) \<and> m ci b (p + k, drop k s, cs) \<noteq> [])"
proof -
  have s: "set (m ci (Rep lo None ws) (p, s, cs)) =
     {(p + k, drop k s, cs) |k. lo \<le> k \<and> k \<le> length (takeWhile isWhiteSpace s)}"
    by (rule rep_unbounded[OF single_ws])
  show ?thesis
    unfolding m_Cat_nonempty s by blast
qed

lemma length_js: "length (js kw) = length kw"
  by (simp add: js_def)

lemma lit_set:
  "set (m True (lit kw) (p, s, cs)) =
     (if startsWithCI (js kw) s then {(p + length kw, drop (length kw) s, cs)} else {})"
  unfolding lit_def by (simp only: m_lit_set length_js)

lemma lit_nonempty: "(m True (lit kw) (p, s, cs) \<noteq> []) = startsWithCI (js kw) s"
proof -
  have "(set (m True (lit kw) (p, s, cs)) \<noteq> {}) = startsWithCI (js kw) s"
    unfolding lit_set by simp
  then show ?thesis by (simp only: set_empty)
qed

lemma ws_Eps_nonempty:
  "(m ci (Cat (Rep 1 None ws) Eps) (p, s, cs) \<noteq> []) =
     (case s of [] \<Rightarrow> False | w # _ \<Rightarrow> isWhiteSpace w)"
proof -
  have "(\<exists>k. 1 \<le> k \<and> k \<le> length (takeWhile isWhiteSpace s)) =
          (case s of [] \<Rightarrow> False | w # _ \<Rightarrow> isWhiteSpace w)"
  proof (cases s)
    case Nil
    then show ?thesis by simp
  next
    case (Cons w r)
    show ?thesis
    proof (cases "isWhiteSpace w")
      case True
      then have "Suc 0 \<le> Suc 0 \<and> Suc 0 \<le> length (takeWhile isWhiteSpace s)"
        using Cons by simp
      then have "\<exists>k. Suc 0 \<le> k \<and> k \<le> length (takeWhile isWhiteSpace s)" by blast
      with True Cons show ?thesis by simp
    next
      case False
      with Cons show ?thesis by simp
    qed
  qed
  then show ?thesis
    unfolding rep_ws_then by (simp del: m.simps add: m.simps(11))
qed

lemma keywordJoin_at:
  "(m True (cat [plus ws, Grp 1 (alts [lit ''or'', lit ''and'', lit ''minus'']), plus ws])
       (p, t, []) \<noteq> []) =
   (\<exists>k. 1 \<le> k \<and> k \<le> length (takeWhile isWhiteSpace t) \<and>
        (joinAt (js ''or'') (drop k t) \<or> joinAt (js ''and'') (drop k t)
         \<or> joinAt (js ''minus'') (drop k t)))"
proof -
  have grp: "\<And>p s. (m True (Cat (Grp 1 (Alt (lit ''or'') (Alt (lit ''and'') (lit ''minus''))))
                         (Cat (Rep 1 None ws) Eps)) (p, s, []) \<noteq> []) =
     (joinAt (js ''or'') s \<or> joinAt (js ''and'') s \<or> joinAt (js ''minus'') s)"
  proof -
    fix p s
    have alt: "set (m True (Alt (lit ''or'') (Alt (lit ''and'') (lit ''minus''))) (p, s, [])) =
        set (m True (lit ''or'') (p, s, [])) \<union> set (m True (lit ''and'') (p, s, []))
        \<union> set (m True (lit ''minus'') (p, s, []))"
      by (simp del: m.simps add: m.simps(6) Un_assoc)
    have "(m True (Cat (Grp 1 (Alt (lit ''or'') (Alt (lit ''and'') (lit ''minus''))))
                         (Cat (Rep 1 None ws) Eps)) (p, s, []) \<noteq> []) =
          (\<exists>st1\<in>set (m True (Alt (lit ''or'') (Alt (lit ''and'') (lit ''minus''))) (p, s, [])).
              m True (Cat (Rep 1 None ws) Eps)
                (fst st1, fst (snd st1), (1, take (fst st1 - p) s) # snd (snd st1)) \<noteq> [])"
      by (simp del: m.simps One_nat_def add: m.simps(5,8))
    also have "\<dots> = (joinAt (js ''or'') s \<or> joinAt (js ''and'') s \<or> joinAt (js ''minus'') s)"
      unfolding alt lit_set ws_Eps_nonempty
      by (auto simp: joinAt_def length_js split: if_splits)
    finally show "(m True (Cat (Grp 1 (Alt (lit ''or'') (Alt (lit ''and'') (lit ''minus''))))
                         (Cat (Rep 1 None ws) Eps)) (p, s, []) \<noteq> []) =
     (joinAt (js ''or'') s \<or> joinAt (js ''and'') s \<or> joinAt (js ''minus'') s)" .
  qed
  show ?thesis
    unfolding cat_def plus_def
    by (simp del: m.simps One_nat_def add: rep_ws_then grp)
qed

lemma anywhere_shift:
  assumes "\<And>t. R t \<Longrightarrow> \<exists>j\<le>length t. S (drop j t)" and "\<And>t. S t \<Longrightarrow> R t"
  shows "anywhere R s = anywhere S s"
proof
  assume "anywhere R s"
  then obtain k where k: "k \<le> length s" "R (drop k s)" by (auto simp: anywhere_iff)
  from assms(1)[OF k(2)] obtain j where j: "j \<le> length (drop k s)" "S (drop j (drop k s))"
    by blast
  have "j + k \<le> length s" using j(1) k(1) by simp
  moreover have "S (drop (j + k) s)" using j(2) by (simp add: add.commute)
  ultimately show "anywhere S s" unfolding anywhere_iff by blast
next
  assume "anywhere S s"
  then show "anywhere R s" using assms(2) by (auto simp: anywhere_iff)
qed

lemma anywhere_disj: "anywhere (\<lambda>t. A t \<or> B t) s = (anywhere A s \<or> anywhere B s)"
  by (induction s) auto

lemma anywhere_head: "anywhere (\<lambda>t. case t of [] \<Rightarrow> False | x # _ \<Rightarrow> Q x) s = list_ex Q s"
  by (induction s) auto

lemma digit_not_ws: "isDigit d \<Longrightarrow> \<not> isWhiteSpace d"
  by (auto simp: isDigit_def isWhiteSpace_def)

lemma takeWhile_nth_holds: "j < length (takeWhile P xs) \<Longrightarrow> P (xs ! j)"
  by (metis nth_mem set_takeWhileD takeWhile_nth)

lemma digit_after_ws:
  "(\<exists>k. k \<le> length (takeWhile isWhiteSpace s) \<and> digitFirst (drop k s)) =
     digitFirst (dropWhile isWhiteSpace s)"
proof
  assume "\<exists>k. k \<le> length (takeWhile isWhiteSpace s) \<and> digitFirst (drop k s)"
  then obtain k where k: "k \<le> length (takeWhile isWhiteSpace s)" "digitFirst (drop k s)" by blast
  have "k = length (takeWhile isWhiteSpace s)"
  proof (rule ccontr)
    assume "k \<noteq> length (takeWhile isWhiteSpace s)"
    with k(1) have lt: "k < length (takeWhile isWhiteSpace s)" by simp
    then have w: "isWhiteSpace (s ! k)" by (rule takeWhile_nth_holds)
    have "length (takeWhile isWhiteSpace s) \<le> length s" by (rule length_takeWhile_le)
    with lt have "k < length s" by simp
    then have "drop k s = s ! k # drop (Suc k) s" by (simp add: Cons_nth_drop_Suc)
    with k(2) have "isDigit (s ! k)" by (simp add: digitFirst_def)
    with w digit_not_ws show False by blast
  qed
  with k(2) show "digitFirst (dropWhile isWhiteSpace s)" by (simp add: dropWhile_eq_drop)
next
  assume "digitFirst (dropWhile isWhiteSpace s)"
  then have "digitFirst (drop (length (takeWhile isWhiteSpace s)) s)"
    by (simp add: dropWhile_eq_drop)
  then show "\<exists>k. k \<le> length (takeWhile isWhiteSpace s) \<and> digitFirst (drop k s)" by blast
qed

lemma dig_Eps_nonempty: "(m ci (Cat dig Eps) (p, s, cs) \<noteq> []) = digitFirst s"
  by (cases s) (simp_all add: dig_def digitFirst_def)

lemma digit_tail:
  "(m ci (Cat (Rep 0 None ws) (Cat dig Eps)) (p, s, cs) \<noteq> []) =
     digitFirst (dropWhile isWhiteSpace s)"
  unfolding rep_ws_then dig_Eps_nonempty using digit_after_ws[of s] by simp

lemma single_Chr_cs:
  "m False (Chr c) (p, s, cs) =
     (case s of [] \<Rightarrow> [] | x # xs \<Rightarrow> if c = x then [(Suc p, xs, cs)] else [])"
  by (cases s) simp_all

lemma operator_at:
  "(m False (Cat (Rep 1 (Some 2) (Chr c)) (Cat (Rep 0 None ws) (Cat dig Eps))) (p, t, cs) \<noteq> []) =
     (\<exists>k. 1 \<le> k \<and> k \<le> 2 \<and> k \<le> length (takeWhile ((=) c) t)
          \<and> digitFirst (dropWhile isWhiteSpace (drop k t)))"
proof -
  have s: "set (m False (Rep 1 (Some 2) (Chr c)) (p, t, cs)) =
     {(p + k, drop k t, cs) |k. 1 \<le> k \<and> k \<le> 2 \<and> k \<le> length (takeWhile ((=) c) t)}"
    by (rule rep_bounded[OF single_Chr_cs]) simp
  show ?thesis
    unfolding m_Cat_nonempty[of False "Rep 1 (Some 2) (Chr c)"] s
    by (auto simp del: m.simps simp add: digit_tail)
qed

lemma canon_op: "(canon 60 = canon x) = (x = 60)" "(canon 62 = canon x) = (x = 62)"
  "(canon 94 = canon x) = (x = 94)"
  by (auto simp: canon_def)

lemma opclass_nonempty:
  "(m True (chr ''<>^'') (p, t, cs) \<noteq> []) =
     (case t of [] \<Rightarrow> False | x # _ \<Rightarrow> x = 60 \<or> x = 62 \<or> x = 94)"
  by (cases t) (auto simp: chr_def js_def canon_op)

lemma hasEclOperators_iff:
  "hasEclOperators s = (containsOperator s \<or> containsKeyword s)"
proof -
  have at: "\<And>p t. (m True (alts [chr ''<>^'', lit ''AND'', lit ''OR'', lit ''MINUS'']) (p, t, []) \<noteq> [])
      = ((case t of [] \<Rightarrow> False | x # _ \<Rightarrow> x = 60 \<or> x = 62 \<or> x = 94)
         \<or> (startsWithCI (js ''AND'') t \<or> startsWithCI (js ''OR'') t
             \<or> startsWithCI (js ''MINUS'') t))"
    by (simp del: m.simps add: m.simps(6) opclass_nonempty lit_nonempty)
  show ?thesis
    unfolding hasEclOperators_def containsOperator_def containsKeyword_def
    by (simp only: test_anywhere[OF at] anywhere_disj anywhere_head)
qed

lemma keywordJoin_iff:
  "test True (cat [plus ws, Grp 1 (alts [lit ''or'', lit ''and'', lit ''minus'']), plus ws]) s
     = containsKeywordJoin s"
proof -
  let ?J = "\<lambda>r. joinAt (js ''or'') r \<or> joinAt (js ''and'') r \<or> joinAt (js ''minus'') r"
  let ?R = "\<lambda>t. \<exists>k. 1 \<le> k \<and> k \<le> length (takeWhile isWhiteSpace t) \<and> ?J (drop k t)"
  let ?S = "\<lambda>t. case t of [] \<Rightarrow> False | w # r \<Rightarrow> isWhiteSpace w \<and> ?J r"
  have RS: "\<And>t. ?R t \<Longrightarrow> \<exists>j\<le>length t. ?S (drop j t)"
  proof -
    fix t assume "?R t"
    then obtain k where k: "1 \<le> k" "k \<le> length (takeWhile isWhiteSpace t)" "?J (drop k t)"
      by blast
    have lt: "k - 1 < length (takeWhile isWhiteSpace t)" using k(1,2) by simp
    then have w: "isWhiteSpace (t ! (k - 1))" by (rule takeWhile_nth_holds)
    have "length (takeWhile isWhiteSpace t) \<le> length t" by (rule length_takeWhile_le)
    with lt have lt': "k - 1 < length t" by simp
    then have "drop (k - 1) t = t ! (k - 1) # drop (Suc (k - 1)) t"
      by (simp add: Cons_nth_drop_Suc)
    then have "drop (k - 1) t = t ! (k - 1) # drop k t" using k(1) by simp
    with w k(3) have "?S (drop (k - 1) t)" by simp
    with lt' show "\<exists>j\<le>length t. ?S (drop j t)" by (intro exI[of _ "k - 1"]) simp
  qed
  have SR: "\<And>t. ?S t \<Longrightarrow> ?R t"
  proof -
    fix t assume S: "?S t"
    then obtain w r where t: "t = w # r" by (cases t) auto
    with S have "isWhiteSpace w" "?J r" by auto
    then have "1 \<le> (1::nat) \<and> 1 \<le> length (takeWhile isWhiteSpace t) \<and> ?J (drop 1 t)"
      using t by simp
    then show "?R t" by blast
  qed
  show ?thesis
    unfolding containsKeywordJoin_def
    by (simp only: test_anywhere[OF keywordJoin_at] anywhere_shift[of ?R ?S, OF RS SR])
qed

lemma operatorDigit_iff:
  "test False (alts [cat [Rep 1 (Some 2) (Chr 60), star ws, dig],
                      cat [Rep 1 (Some 2) (Chr 62), star ws, dig],
                      cat [Chr 94, star ws, dig]]) s
     = containsOperatorDigit s"
proof -
  let ?D = "\<lambda>c t. \<exists>k. 1 \<le> k \<and> k \<le> 2 \<and> k \<le> length (takeWhile ((=) c) t)
                       \<and> digitFirst (dropWhile isWhiteSpace (drop k t))"
  let ?R = "\<lambda>t. ?D 60 t \<or> ?D 62 t
                 \<or> (case t of [] \<Rightarrow> False | x # r \<Rightarrow> x = 94 \<and> digitFirst (dropWhile isWhiteSpace r))"
  let ?S = "\<lambda>t. case t of [] \<Rightarrow> False
                  | c # r \<Rightarrow> (c = 60 \<or> c = 62 \<or> c = 94) \<and> digitFirst (dropWhile isWhiteSpace r)"
  have caret: "\<And>p t. (m False (Cat (Chr 94) (Cat (Rep 0 None ws) (Cat dig Eps))) (p, t, []) \<noteq> [])
      = (case t of [] \<Rightarrow> False | x # r \<Rightarrow> x = 94 \<and> digitFirst (dropWhile isWhiteSpace r))"
  proof -
    fix p t
    show "(m False (Cat (Chr 94) (Cat (Rep 0 None ws) (Cat dig Eps))) (p, t, []) \<noteq> [])
      = (case t of [] \<Rightarrow> False | x # r \<Rightarrow> x = 94 \<and> digitFirst (dropWhile isWhiteSpace r))"
      unfolding m_Cat_nonempty[of False "Chr 94"] single_Chr_cs
      by (cases t) (auto simp del: m.simps simp add: digit_tail)
  qed
  have at: "\<And>p t. (m False (alts [cat [Rep 1 (Some 2) (Chr 60), star ws, dig],
                      cat [Rep 1 (Some 2) (Chr 62), star ws, dig],
                      cat [Chr 94, star ws, dig]]) (p, t, []) \<noteq> []) = ?R t"
    by (simp del: m.simps One_nat_def add: m.simps(6) cat_def star_def operator_at caret)
  have shift: "\<And>c k (t::jsstring). 1 \<le> k \<Longrightarrow> k \<le> length (takeWhile ((=) c) t) \<Longrightarrow>
                 k - 1 < length t \<and> drop (k - 1) t = c # drop k t"
  proof -
    fix c :: nat and k t assume k: "1 \<le> k" "k \<le> length (takeWhile ((=) c) t)"
    then have lt: "k - 1 < length (takeWhile ((=) c) t)" by simp
    then have c: "c = t ! (k - 1)" using takeWhile_nth_holds[of "k - 1" "(=) c" t] by simp
    have "length (takeWhile ((=) c) t) \<le> length t" by (rule length_takeWhile_le)
    with lt have lt': "k - 1 < length t" by simp
    then have "drop (k - 1) t = t ! (k - 1) # drop (Suc (k - 1)) t"
      by (simp add: Cons_nth_drop_Suc)
    with c k(1) lt' show "k - 1 < length t \<and> drop (k - 1) t = c # drop k t" by simp
  qed
  have DS: "\<And>c t. c = 60 \<or> c = 62 \<Longrightarrow> ?D c t \<Longrightarrow> \<exists>j\<le>length t. ?S (drop j t)"
  proof -
    fix c :: nat and t assume c: "c = 60 \<or> c = 62" and "?D c t"
    then obtain k where k: "1 \<le> k" "k \<le> length (takeWhile ((=) c) t)"
      "digitFirst (dropWhile isWhiteSpace (drop k t))" by blast
    from shift[OF k(1,2)] have "k - 1 < length t" "drop (k - 1) t = c # drop k t" by simp_all
    with c k(3) have "k - 1 \<le> length t \<and> ?S (drop (k - 1) t)" by auto
    then show "\<exists>j\<le>length t. ?S (drop j t)" by blast
  qed
  have RS: "\<And>t. ?R t \<Longrightarrow> \<exists>j\<le>length t. ?S (drop j t)"
  proof -
    fix t assume "?R t"
    then consider "?D 60 t" | "?D 62 t"
      | "case t of [] \<Rightarrow> False | x # r \<Rightarrow> x = 94 \<and> digitFirst (dropWhile isWhiteSpace r)"
      by blast
    then show "\<exists>j\<le>length t. ?S (drop j t)"
    proof cases
      case 1
      then show ?thesis by (intro DS[of 60]) simp_all
    next
      case 2
      then show ?thesis by (intro DS[of 62]) simp_all
    next
      case 3
      then have "0 \<le> length t \<and> ?S (drop 0 t)" by (cases t) auto
      then show ?thesis by blast
    qed
  qed
  have SR: "\<And>t. ?S t \<Longrightarrow> ?R t"
  proof -
    fix t assume S: "?S t"
    then obtain c r where t: "t = c # r" by (cases t) auto
    with S have c: "c = 60 \<or> c = 62 \<or> c = 94" and d: "digitFirst (dropWhile isWhiteSpace r)"
      by auto
    have one: "\<And>c'. c = c' \<Longrightarrow> ?D c' t"
    proof -
      fix c' assume "c = c'"
      with t d have "1 \<le> (1::nat) \<and> (1::nat) \<le> 2 \<and> 1 \<le> length (takeWhile ((=) c') t)
           \<and> digitFirst (dropWhile isWhiteSpace (drop 1 t))" by simp
      then show "?D c' t" by blast
    qed
    from c show "?R t"
    proof (elim disjE)
      assume "c = 60" then show ?thesis using one[of 60] by blast
    next
      assume "c = 62" then show ?thesis using one[of 62] by blast
    next
      assume "c = 94" then show ?thesis using t d by simp
    qed
  qed
  show ?thesis
    unfolding containsOperatorDigit_def
    by (simp only: test_anywhere[OF at] anywhere_shift[of ?R ?S, OF RS SR])
qed

lemma hasLogicalStructure_iff:
  "hasLogicalStructure s = (containsKeywordJoin s \<or> containsOperatorDigit s)"
  unfolding hasLogicalStructure_def by (simp only: keywordJoin_iff operatorDigit_iff)

text \<open>
  Digit runs: the script's test for six digits in a row, said with the lengths of the
  maximal digit runs.
\<close>

lemma anywhere_here: "P s \<Longrightarrow> anywhere P s"
  by (cases s) simp_all

lemma runs_long:
  "0 < N \<Longrightarrow>
   list_ex (\<lambda>k. N \<le> k) (runs n s) =
     (N \<le> n + length (takeWhile isDigit s) \<or> anywhere (\<lambda>t. N \<le> length (takeWhile isDigit t)) s)"
proof (induction s arbitrary: n)
  case Nil
  then show ?case by auto
next
  case (Cons c cs)
  show ?case
  proof (cases "isDigit c")
    case True
    with Cons.prems show ?thesis by (auto simp: Cons.IH[OF Cons.prems])
  next
    case False
    have "anywhere (\<lambda>t. N \<le> length (takeWhile isDigit t)) cs"
      if "N \<le> length (takeWhile isDigit cs)"
      using that by (rule anywhere_here)
    with False Cons.prems show ?thesis by (auto simp: Cons.IH[OF Cons.prems])
  qed
qed

lemma containsDigitRun_runs:
  "containsDigitRun s = list_ex (\<lambda>k. 6 \<le> k) (digitRuns s)"
proof -
  have "anywhere (\<lambda>t. 6 \<le> length (takeWhile isDigit t)) s"
    if "6 \<le> length (takeWhile isDigit s)"
    using that by (rule anywhere_here)
  then show ?thesis
    unfolding containsDigitRun_def digitRuns_def using runs_long[of 6 0 s] by auto
qed

lemma idRun_bounded:
  "list_all (\<lambda>n. n \<le> 18) rs \<Longrightarrow>
     list_ex (\<lambda>n. 6 \<le> n \<and> n \<le> 18) rs = list_ex (\<lambda>k. (6::nat) \<le> k) rs"
  by (induction rs) auto

section \<open>The matcher on the FHIR ECL URL pattern\<close>













section \<open>The matcher on the white-space patterns\<close>


















lemma trimEnd_not_all:
  "\<not> isWhiteSpace x \<Longrightarrow> trimEnd (x # xs) = x # trimEnd xs"
  by simp








lemma single_tl: "single (c # cs) \<Longrightarrow> single cs"
  by simp





section \<open>Evaluations on concrete descriptors\<close>

subsection \<open>The expression \<open><1234567\<close>\<close>

lemma short_valid: "isValidEclExpression (js ''<1234567'')"
  by (simp add: ev)

lemma short_no_join: "\<not> containsKeywordJoin (js ''<1234567'')"
  by (simp add: containsKeywordJoin_def js_def joinAt_def isWhiteSpace_def canon_def)

lemma short_length: "\<not> length (js ''<1234567'') > 20"
  by (simp add: js_def)

lemma short_runs: "digitRuns (js ''<1234567'') = [7]"
  by (simp add: digitRuns_def js_def isDigit_def)

subsection \<open>The expression \<open><< 1234567890123456789 |Disorder|\<close>\<close>

lemma long_valid: "isValidEclExpression (js ''<< 1234567890123456789 |Disorder|'')"
  by (simp add: ev)

lemma long_runs: "digitRuns (js ''<< 1234567890123456789 |Disorder|'') = [19]"
  by (simp add: digitRuns_def js_def isDigit_def)

subsection \<open>The descriptor \<open>dm+d: 123456\<close>\<close>

lemma dmd_trim: "trimString (js ''dm+d: 123456'') = js ''dm+d: 123456''"
  by (simp add: ev)

lemma dmd_1: "complexEcl (js ''dm+d: 123456'') = None"
  by (simp add: ev)

lemma dmd_2: "altPrefix (js ''dm+d: 123456'') = None"
  by (simp add: ev)

lemma dmd_3: "dmd (js ''dm+d: 123456'') = Some (Inr (js ''< 123456 |dm+d concept|''))"
  by (simp add: ev)

lemma dmd_15:
  "standaloneConcept (js ''dm+d: 123456'') = Some (Inr (js ''< 123456 |SNOMED CT concept|''))"
  by (simp add: ev)

lemma dmd_res_trim: "trimString (js ''< 123456 |dm+d concept|'') = js ''< 123456 |dm+d concept|''"
  by (simp add: ev)

lemma dmd_extract:
  "extractSnomedEclFromValueSet (js ''dm+d: 123456'') = Inr (js ''< 123456 |dm+d concept|'')"
  by (simp add: extractSnomedEclFromValueSet_def dmd_trim dmd_1 dmd_2 dmd_3 js_Nil_iff)

lemma blank_trim: "trimString (js '' '') = []"
  by (simp add: ev)

lemma x_trim: "trimString (js ''x'') = js ''x''"
  by (simp add: ev)

subsection \<open>The descriptor \<open>SCT <<1234567 SNOMED CT: x\<close>\<close>

lemma s1_trim:
  "trimString (js ''SCT <<1234567 SNOMED CT: x'') = js ''SCT <<1234567 SNOMED CT: x''"
  by (simp add: ev)

lemma s1_1: "complexEcl (js ''SCT <<1234567 SNOMED CT: x'') = None"
  by (simp add: ev)

lemma s1_2: "altPrefix (js ''SCT <<1234567 SNOMED CT: x'') = None"
  by (simp add: ev)

lemma s1_3: "dmd (js ''SCT <<1234567 SNOMED CT: x'') = None"
  by (simp add: ev)

lemma s1_4: "refset (js ''SCT <<1234567 SNOMED CT: x'') = None"
  by (simp add: ev)

lemma s1_5: "exact (js ''SCT <<1234567 SNOMED CT: x'') = None"
  by (simp add: ev)

lemma s1_6: "descendantsInclusive (js ''SCT <<1234567 SNOMED CT: x'') = None"
  by (simp add: ev)

lemma s1_7: "descendantsExclusive (js ''SCT <<1234567 SNOMED CT: x'') = None"
  by (simp add: ev)

lemma s1_8: "ancestorsInclusive (js ''SCT <<1234567 SNOMED CT: x'') = None"
  by (simp add: ev)

lemma s1_9: "ancestorsExclusive (js ''SCT <<1234567 SNOMED CT: x'') = None"
  by (simp add: ev)

lemma s1_10: "fhirEcl (js ''SCT <<1234567 SNOMED CT: x'') = None"
  by (simp add: ev)

lemma s1_11: "fhirRefset (js ''SCT <<1234567 SNOMED CT: x'') = None"
  by (simp add: ev)

lemma s1_12: "simpleConcept (js ''SCT <<1234567 SNOMED CT: x'') = None"
  by (simp add: ev)

lemma s1_13: "multipleConcept (js ''SCT <<1234567 SNOMED CT: x'') = None"
  by (simp add: ev)

lemma s1_14: "standaloneRefset (js ''SCT <<1234567 SNOMED CT: x'') = None"
  by (simp add: ev)

lemma s1_15:
  "standaloneConcept (js ''SCT <<1234567 SNOMED CT: x'') = Some (Inr (js ''< 1234567 |SNOMED CT concept|''))"
  by (simp add: ev)

lemma s1_pattern2:
  "test True altPrefixPattern (js ''SCT <<1234567 SNOMED CT: x'')"
  by (simp add: ev)

lemma s1_pattern13:
  "test True multipleConceptPattern (js ''SCT <<1234567 SNOMED CT: x'')"
  by (simp add: ev)

lemmas s1 = s1_1 s1_2 s1_3 s1_4 s1_5 s1_6 s1_7 s1_8 s1_9 s1_10 s1_11 s1_12 s1_13 s1_14

subsection \<open>The descriptor \<open>123456 snomed.info/sct?fhir_vs=ecl/%20\<close>\<close>

lemma x2_trim:
  "trimString (js ''123456 snomed.info/sct?fhir_vs=ecl/%20'')
     = js ''123456 snomed.info/sct?fhir_vs=ecl/%20''"
  by (simp add: ev)

lemma x2_1:
  "complexEcl (js ''123456 snomed.info/sct?fhir_vs=ecl/%20'')
     = None"
  by (simp add: ev)

lemma x2_2:
  "altPrefix (js ''123456 snomed.info/sct?fhir_vs=ecl/%20'')
     = None"
  by (simp add: ev)

lemma x2_3:
  "dmd (js ''123456 snomed.info/sct?fhir_vs=ecl/%20'')
     = None"
  by (simp add: ev)

lemma x2_4:
  "refset (js ''123456 snomed.info/sct?fhir_vs=ecl/%20'')
     = None"
  by (simp add: ev)

lemma x2_5:
  "exact (js ''123456 snomed.info/sct?fhir_vs=ecl/%20'')
     = None"
  by (simp add: ev)

lemma x2_6:
  "descendantsInclusive (js ''123456 snomed.info/sct?fhir_vs=ecl/%20'')
     = None"
  by (simp add: ev)

lemma x2_7:
  "descendantsExclusive (js ''123456 snomed.info/sct?fhir_vs=ecl/%20'')
     = None"
  by (simp add: ev)

lemma x2_8:
  "ancestorsInclusive (js ''123456 snomed.info/sct?fhir_vs=ecl/%20'')
     = None"
  by (simp add: ev)

lemma x2_9:
  "ancestorsExclusive (js ''123456 snomed.info/sct?fhir_vs=ecl/%20'')
     = None"
  by (simp add: ev)

lemma x2_10:
  "fhirEcl (js ''123456 snomed.info/sct?fhir_vs=ecl/%20'')
     = Some (Inr [])"
  by (simp add: ev)

lemma x2_11:
  "fhirRefset (js ''123456 snomed.info/sct?fhir_vs=ecl/%20'')
     = None"
  by (simp add: ev)

lemma x2_12:
  "simpleConcept (js ''123456 snomed.info/sct?fhir_vs=ecl/%20'')
     = None"
  by (simp add: ev)

lemma x2_13:
  "multipleConcept (js ''123456 snomed.info/sct?fhir_vs=ecl/%20'')
     = None"
  by (simp add: ev)

lemma x2_14:
  "standaloneRefset (js ''123456 snomed.info/sct?fhir_vs=ecl/%20'')
     = None"
  by (simp add: ev)

lemma x2_15:
  "standaloneConcept (js ''123456 snomed.info/sct?fhir_vs=ecl/%20'')
     = Some (Inr (js ''< 123456 |SNOMED CT concept|''))"
  by (simp add: ev)

lemmas x2 = x2_1 x2_2 x2_3 x2_4 x2_5 x2_6 x2_7 x2_8 x2_9 x2_10 x2_11 x2_12 x2_13 x2_14 x2_15

subsection \<open>The descriptor \<open>SNOMED CT: - <71388002 |Procedure (procedure)|\<close>\<close>

lemma c2_trim:
  "trimString (js ''SNOMED CT: - <71388002 |Procedure (procedure)|'')
     = js ''SNOMED CT: - <71388002 |Procedure (procedure)|''"
  by (simp add: ev)

lemma c2_exec:
  "exec True complexEclPattern (js ''SNOMED CT: - <71388002 |Procedure (procedure)|'')
     = Some (0, 46, [(1, js ''- <71388002 |Procedure (procedure)|'')])"
  by (simp add: ev)

lemma c2_tail_trim:
  "trimString (js ''- <71388002 |Procedure (procedure)|'')
     = js ''- <71388002 |Procedure (procedure)|''"
  by (simp add: ev)

lemma c2_valid:
  "isValidEclExpression (js ''- <71388002 |Procedure (procedure)|'')"
  by (simp add: ev)

lemma c2_clean:
  "cleanAndStandardizeEcl (js ''- <71388002 |Procedure (procedure)|'')
     = js ''-< 71388002 |Procedure|''"
  by (simp add: ev)

subsection \<open>The descriptor \<open>SNOMED CT: 1234567890123456789\<close>\<close>

lemma c6_trim:
  "trimString (js ''SNOMED CT: 1234567890123456789'') = js ''SNOMED CT: 1234567890123456789''"
  by (simp add: ev)

lemma c6_1:
  "complexEcl (js ''SNOMED CT: 1234567890123456789'')
     = None"
  by (simp add: ev)

lemma c6_2:
  "altPrefix (js ''SNOMED CT: 1234567890123456789'')
     = None"
  by (simp add: ev)

lemma c6_3:
  "dmd (js ''SNOMED CT: 1234567890123456789'')
     = None"
  by (simp add: ev)

lemma c6_4:
  "refset (js ''SNOMED CT: 1234567890123456789'')
     = None"
  by (simp add: ev)

lemma c6_5:
  "exact (js ''SNOMED CT: 1234567890123456789'')
     = None"
  by (simp add: ev)

lemma c6_6:
  "descendantsInclusive (js ''SNOMED CT: 1234567890123456789'')
     = None"
  by (simp add: ev)

lemma c6_7:
  "descendantsExclusive (js ''SNOMED CT: 1234567890123456789'')
     = None"
  by (simp add: ev)

lemma c6_8:
  "ancestorsInclusive (js ''SNOMED CT: 1234567890123456789'')
     = None"
  by (simp add: ev)

lemma c6_9:
  "ancestorsExclusive (js ''SNOMED CT: 1234567890123456789'')
     = None"
  by (simp add: ev)

lemma c6_10:
  "fhirEcl (js ''SNOMED CT: 1234567890123456789'')
     = None"
  by (simp add: ev)

lemma c6_11:
  "fhirRefset (js ''SNOMED CT: 1234567890123456789'')
     = None"
  by (simp add: ev)

lemma c6_12:
  "simpleConcept (js ''SNOMED CT: 1234567890123456789'')
     = Some (Inr (js ''< 123456789012345678 |SNOMED CT concept|''))"
  by (simp add: ev)

lemmas c6 = c6_1 c6_2 c6_3 c6_4 c6_5 c6_6 c6_7 c6_8 c6_9 c6_10 c6_11 c6_12

subsection \<open>The descriptor \<open>http://snomed.info/sct?fhir_vs=ecl/%3C%3C123456%20%20%7CFlu%20(finding)%7C\<close>\<close>















subsection \<open>The descriptor \<open>http://snomed.info/sct/900000000000207008?fhir_vs=ecl/%3C%20123456\<close>\<close>





















subsection \<open>The descriptor \<open>Local procedure codes\<close>\<close>

lemma c8_trim:
  "trimString (js ''Local procedure codes'') = js ''Local procedure codes''"
  by (simp add: ev)

lemma c8_1:
  "complexEcl (js ''Local procedure codes'') = None"
  by (simp add: ev)

lemma c8_2:
  "altPrefix (js ''Local procedure codes'') = None"
  by (simp add: ev)

lemma c8_3:
  "dmd (js ''Local procedure codes'') = None"
  by (simp add: ev)

lemma c8_4:
  "refset (js ''Local procedure codes'') = None"
  by (simp add: ev)

lemma c8_5:
  "exact (js ''Local procedure codes'') = None"
  by (simp add: ev)

lemma c8_6:
  "descendantsInclusive (js ''Local procedure codes'') = None"
  by (simp add: ev)

lemma c8_7:
  "descendantsExclusive (js ''Local procedure codes'') = None"
  by (simp add: ev)

lemma c8_8:
  "ancestorsInclusive (js ''Local procedure codes'') = None"
  by (simp add: ev)

lemma c8_9:
  "ancestorsExclusive (js ''Local procedure codes'') = None"
  by (simp add: ev)

lemma c8_10:
  "fhirEcl (js ''Local procedure codes'') = None"
  by (simp add: ev)

lemma c8_11:
  "fhirRefset (js ''Local procedure codes'') = None"
  by (simp add: ev)

lemma c8_12:
  "simpleConcept (js ''Local procedure codes'') = None"
  by (simp add: ev)

lemma c8_13:
  "multipleConcept (js ''Local procedure codes'') = None"
  by (simp add: ev)

lemma c8_14:
  "standaloneRefset (js ''Local procedure codes'') = None"
  by (simp add: ev)

lemma c8_15:
  "standaloneConcept (js ''Local procedure codes'') = None"
  by (simp add: ev)

lemmas c8 = c8_1 c8_2 c8_3 c8_4 c8_5 c8_6 c8_7 c8_8 c8_9 c8_10 c8_11 c8_12 c8_13 c8_14 c8_15

subsection \<open>The descriptor \<open>snomed.info/sct?fhir_vs=ecl/%\<close>\<close>

lemma c9_trim:
  "trimString (js ''snomed.info/sct?fhir_vs=ecl/%'') = js ''snomed.info/sct?fhir_vs=ecl/%''"
  by (simp add: ev)

lemma c9_1:
  "complexEcl (js ''snomed.info/sct?fhir_vs=ecl/%'') = None"
  by (simp add: ev)

lemma c9_2:
  "altPrefix (js ''snomed.info/sct?fhir_vs=ecl/%'') = None"
  by (simp add: ev)

lemma c9_3:
  "dmd (js ''snomed.info/sct?fhir_vs=ecl/%'') = None"
  by (simp add: ev)

lemma c9_4:
  "refset (js ''snomed.info/sct?fhir_vs=ecl/%'') = None"
  by (simp add: ev)

lemma c9_5:
  "exact (js ''snomed.info/sct?fhir_vs=ecl/%'') = None"
  by (simp add: ev)

lemma c9_6:
  "descendantsInclusive (js ''snomed.info/sct?fhir_vs=ecl/%'') = None"
  by (simp add: ev)

lemma c9_7:
  "descendantsExclusive (js ''snomed.info/sct?fhir_vs=ecl/%'') = None"
  by (simp add: ev)

lemma c9_8:
  "ancestorsInclusive (js ''snomed.info/sct?fhir_vs=ecl/%'') = None"
  by (simp add: ev)

lemma c9_9:
  "ancestorsExclusive (js ''snomed.info/sct?fhir_vs=ecl/%'') = None"
  by (simp add: ev)

lemma c9_10:
  "fhirEcl (js ''snomed.info/sct?fhir_vs=ecl/%'') = Some (Inl URIError)"
  by (simp add: ev)

lemmas c9 = c9_1 c9_2 c9_3 c9_4 c9_5 c9_6 c9_7 c9_8 c9_9 c9_10

lemma c9_extract:
  "extractSnomedEclFromValueSet (js ''snomed.info/sct?fhir_vs=ecl/%'') = Inl URIError"
  by (simp add: extractSnomedEclFromValueSet_def c9_trim c9 js_Nil_iff)


lemma c9_try:
  "fst (tryBlock defaultConfig (js ''2024-12-19'') handlerLogFails 0
          (repo2 [tag ''valueSets'' ''snomed.info/sct?fhir_vs=ecl/%'']
                 [tag ''valueSets'' ''dm+d: 123456'']))
   = Some (ScriptError URIError)"
  by (simp add: tryBlock_def Let_def convertValueSets_def getTaggedValueF_def
        extractSnomedEclFromValueSetF_def handlerLogFails_def count_def repo2_def tag_def
        defaultConfig_def js_eq_iff js_Nil_iff c9_trim c9_extract trimString_Nil)

lemma c9_escapes:
  "fst (convertAllDataElementsF defaultConfig (js ''2024-12-19'')
          [(0, handlerLogFails), (1, noFaults)]
          (repo2 [tag ''valueSets'' ''snomed.info/sct?fhir_vs=ecl/%'']
                 [tag ''valueSets'' ''dm+d: 123456'']))
   = Some HostError"
  by (simp add: convertSingleDataElementF_def thenDo_def tryBlock_def Let_def
        convertValueSets_def getTaggedValueF_def extractSnomedEclFromValueSetF_def
        handlerLogFails_def count_def repo2_def tag_def defaultConfig_def js_eq_iff js_Nil_iff
        c9_trim c9_extract trimString_Nil)

lemma c9_counter:
  "counter (snd (convertAllDataElementsF defaultConfig (js ''2024-12-19'')
                   [(0, handlerLogFails), (1, noFaults)]
                   (repo2 [tag ''valueSets'' ''snomed.info/sct?fhir_vs=ecl/%'']
                          [tag ''valueSets'' ''dm+d: 123456''])))
   = \<lparr>elementsProcessed = 1, conversionsPerformed = 0, existingEclSkipped = 0,
      nonSnomedSkipped = 0, errors = 0\<rparr>"
  by (simp add: convertSingleDataElementF_def thenDo_def tryBlock_def Let_def
        convertValueSets_def getTaggedValueF_def extractSnomedEclFromValueSetF_def
        handlerLogFails_def count_def repo2_def zeroCounter_def tag_def defaultConfig_def
        js_eq_iff js_Nil_iff c9_trim c9_extract trimString_Nil)

subsection \<open>A failed write of \<open>eclSource\<close>\<close>

lemma write_try:
  "fst (tryBlock defaultConfig (js ''2024-12-19'') sourceWriteFails 0
          (repo [tag ''valueSets'' ''dm+d: 123456''])) = Some HostError"
  by (simp add: tryBlock_def Let_def convertValueSets_def getTaggedValueF_def
        extractSnomedEclFromValueSetF_def storeExpression_def logAt_def writeTagF_def
        addOrUpdateTaggedValueF_def thenDo_def sourceWriteFails_def count_def repo_def tag_def
        defaultConfig_def js_eq_iff js_Nil_iff dmd_trim dmd_extract dmd_res_trim trimString_Nil)

lemma write_batch:
  "counter (snd (convertAllDataElementsF defaultConfig (js ''2024-12-19'')
                   [(0, sourceWriteFails), (1, noFaults)]
                   (repo [tag ''valueSets'' ''dm+d: 123456''])))
   = \<lparr>elementsProcessed = 2, conversionsPerformed = 1, existingEclSkipped = 0,
      nonSnomedSkipped = 0, errors = 1\<rparr>"
  by (simp add: convertSingleDataElementF_def tryBlock_def Let_def convertValueSets_def
        getTaggedValueF_def extractSnomedEclFromValueSetF_def storeExpression_def logAt_def
        writeTagF_def addOrUpdateTaggedValueF_def thenDo_def sourceWriteFails_def noFaults_def
        count_def repo_def zeroCounter_def tag_def defaultConfig_def js_eq_iff js_Nil_iff
        dmd_trim dmd_extract dmd_res_trim trimString_Nil)

subsection \<open>Expressions for the canonicalizer\<close>







section \<open>C10: tagged-value round trip\<close>

text \<open>
  C10, as stated: for every tag name and every string value, reading a tag back with
  \<open>getTaggedValue\<close> after writing it with \<open>addOrUpdateTaggedValue\<close> returns the value
  written. This fails for the value \<open><memo>\<close> itself: it is short, so it is stored in
  \<open>Value\<close> with empty \<open>Notes\<close>, and the reader takes it for the sentinel and returns
  the empty \<open>Notes\<close>.
\<close>

theorem C10_memo_counterexample:
  "getTaggedValue (addOrUpdateTaggedValue [] (js ''snomedECL'') (js ''<memo>'')) (js ''snomedECL'')
     \<noteq> js ''<memo>''"
  by (simp add: js_def)

text \<open>
  C10, amended: for every tag collection, every tag name and every string value other than
  the sentinel text \<open><memo>\<close>, reading the tag back after writing it returns the value
  written, whether the value is short (stored in \<open>Value\<close>) or longer than 255 code
  units (stored in \<open>Notes\<close> behind the sentinel).
\<close>

theorem C10_roundtrip:
  "tagValue \<noteq> js ''<memo>'' \<Longrightarrow>
     getTaggedValue (addOrUpdateTaggedValue ts tagName tagValue) tagName = tagValue"
  by (induction ts) auto

theorem C10_roundtrip_witness:
  "replicate 300 (120::nat) \<noteq> js ''<memo>'' \<and>
   getTaggedValue (addOrUpdateTaggedValue [] (js ''snomedECL'') (replicate 300 120)) (js ''snomedECL'')
     = replicate 300 120"
proof -
  have "length (replicate 300 (120::nat)) \<noteq> length (js ''<memo>'')" by (simp add: js_def)
  then have h: "replicate 300 (120::nat) \<noteq> js ''<memo>''" by metis
  from C10_roundtrip[OF h] h show ?thesis by blast
qed

section \<open>C7: the guard on an existing expression\<close>

text \<open>
  C7, as stated: an element whose \<open>snomedECL\<close> field is already non-empty is skipped
  when \<open>skipExistingEcl\<close> is set, and nothing is written. The script tests the field
  after trimming, so a field holding only white space is non-empty and still converted:
  here \<open>snomedECL\<close> is one space before the run and the converted expression after it.
\<close>

theorem C7_blank_field_counterexample:
  "getTaggedValue (tags (repo [tag ''snomedECL'' '' '', tag ''valueSets'' ''dm+d: 123456'']) 0)
      (js ''snomedECL'') = js '' ''
   \<and> js '' '' \<noteq> []
   \<and> skipExistingEcl defaultConfig
   \<and> getTaggedValue (tags (convertSingleDataElement defaultConfig (js ''2024-12-19'') 0
          (repo [tag ''snomedECL'' '' '', tag ''valueSets'' ''dm+d: 123456''])) 0) (js ''snomedECL'')
       = js ''< 123456 |dm+d concept|''
   \<and> js ''< 123456 |dm+d concept|'' \<noteq> js '' ''"
  by (simp add: convertSingleDataElement_def Let_def count_def writeTag_def repo_def tag_def
        defaultConfig_def js_eq_iff js_Nil_iff blank_trim dmd_trim dmd_extract dmd_res_trim)

text \<open>
  C7, amended: for every element whose \<open>snomedECL\<close> field is non-blank (non-empty after
  trimming white space), when \<open>skipExistingEcl\<close> is true, processing the element changes
  nothing but two counters: elements-processed and existing-skipped each grow by one, and
  no tag is written. A second run over the element again changes only these two counters.
\<close>

theorem C7_guard_skip:
  assumes "trimString (getTaggedValue (tags st element) (js ''snomedECL'')) \<noteq> []"
    and "skipExistingEcl cfg"
  shows "convertSingleDataElement cfg today element st =
           st\<lparr>counter := (counter st)\<lparr>elementsProcessed := elementsProcessed (counter st) + 1,
                                      existingEclSkipped := existingEclSkipped (counter st) + 1\<rparr>\<rparr>
       \<and> convertSingleDataElement cfg today element (convertSingleDataElement cfg today element st) =
           st\<lparr>counter := (counter st)\<lparr>elementsProcessed := elementsProcessed (counter st) + 2,
                                      existingEclSkipped := existingEclSkipped (counter st) + 2\<rparr>\<rparr>"
  using assms trimString_Nil
  by (auto simp: convertSingleDataElement_def count_def Let_def)

theorem C7_guard_skip_witness:
  "trimString (getTaggedValue (tags (repo [tag ''snomedECL'' ''x'', tag ''valueSets'' ''dm+d: 123456'']) 0)
      (js ''snomedECL'')) \<noteq> []
   \<and> skipExistingEcl defaultConfig
   \<and> tags (convertSingleDataElement defaultConfig (js ''2024-12-19'') 0
          (repo [tag ''snomedECL'' ''x'', tag ''valueSets'' ''dm+d: 123456'']))
       = tags (repo [tag ''snomedECL'' ''x'', tag ''valueSets'' ''dm+d: 123456''])"
proof -
  have a: "trimString (getTaggedValue
             (tags (repo [tag ''snomedECL'' ''x'', tag ''valueSets'' ''dm+d: 123456'']) 0)
             (js ''snomedECL'')) \<noteq> []"
    by (simp add: repo_def tag_def x_trim js_Nil_iff js_eq_iff)
  have b: "skipExistingEcl defaultConfig" by (simp add: defaultConfig_def)
  from C7_guard_skip[OF a b, of "js ''2024-12-19''"] a b show ?thesis by simp
qed

section \<open>C1: recognizer priority\<close>

text \<open>
  C1, amended: for every non-blank descriptor, the engine returns the outcome of the
  earliest-listed recognizer that fires, and no later recognizer is consulted, whatever
  that outcome is (an empty expression and an exception included). A recognizer fires when
  its pattern matches the trimmed descriptor and the further condition of its block holds:
  for recognizer 1, that the captured tail passes the validity gate; for recognizer 2, that
  the pattern of recognizer 1 does not match and that the captured tail passes the gate;
  for recognizer 13 (concept lists), that the captured list holds a run of 6 to 18 digits;
  for recognizer 15 (standalone concept), that the descriptor is not a pure list of
  numbers.
\<close>

theorem C1_priority:
  assumes "trimString v \<noteq> []" and "i < length recognizers"
    and "(firing ! i) (trimString v)"
    and "\<forall>j<i. \<not> (firing ! j) (trimString v)"
  shows "(recognizers ! i) (trimString v) = Some (extractSnomedEclFromValueSet v)"
proof -
  from assms(2,3) obtain res where res: "(recognizers ! i) (trimString v) = Some res"
    by (auto simp: firing_iff)
  have "\<forall>j<i. (recognizers ! j) (trimString v) = None"
  proof (intro allI impI)
    fix j assume "j < i"
    with assms(2,4) show "(recognizers ! j) (trimString v) = None"
      using firing_iff[of j "trimString v"] by simp
  qed
  from firstFiring_nth[OF assms(2) res this] assms(1) res show ?thesis
    by (simp add: extract_firstFiring)
qed

theorem C1_priority_witness:
  "trimString (js ''dm+d: 123456'') \<noteq> [] \<and> 2 < length recognizers
   \<and> (firing ! 2) (trimString (js ''dm+d: 123456''))
   \<and> \<not> (firing ! 0) (trimString (js ''dm+d: 123456''))
   \<and> \<not> (firing ! 1) (trimString (js ''dm+d: 123456''))
   \<and> (firing ! 14) (trimString (js ''dm+d: 123456''))
   \<and> (recognizers ! 14) (trimString (js ''dm+d: 123456''))
       = Some (Inr (js ''< 123456 |SNOMED CT concept|''))
   \<and> extractSnomedEclFromValueSet (js ''dm+d: 123456'') = Inr (js ''< 123456 |dm+d concept|'')
   \<and> test True altPrefixPattern (trimString (js ''SCT <<1234567 SNOMED CT: x''))
   \<and> test True multipleConceptPattern (trimString (js ''SCT <<1234567 SNOMED CT: x''))
   \<and> map (\<lambda>f. f (trimString (js ''SCT <<1234567 SNOMED CT: x''))) (take 14 firing) = replicate 14 False
   \<and> (firing ! 14) (trimString (js ''SCT <<1234567 SNOMED CT: x''))
   \<and> extractSnomedEclFromValueSet (js ''SCT <<1234567 SNOMED CT: x'') = Inr (js ''< 1234567 |SNOMED CT concept|'')"
proof -
  have f: "(firing ! i) v = ((recognizers ! i) v \<noteq> None)" if "i < 15" for i v
    using that by (intro firing_iff) (simp add: recognizers_def)
  have a: "trimString (js ''dm+d: 123456'') \<noteq> []" by (simp add: dmd_trim js_Nil_iff)
  have b: "2 < length recognizers" by (simp add: recognizers_def)
  have f2: "(firing ! 2) (trimString (js ''dm+d: 123456''))"
    by (simp add: f recognizers_def dmd_trim dmd_3)
  have f0: "\<not> (firing ! 0) (trimString (js ''dm+d: 123456''))"
    by (simp add: f recognizers_def dmd_trim dmd_1)
  have f1: "\<not> (firing ! 1) (trimString (js ''dm+d: 123456''))"
    by (simp add: f recognizers_def dmd_trim dmd_2)
  have f14: "(firing ! 14) (trimString (js ''dm+d: 123456''))"
    by (simp add: f recognizers_def dmd_trim dmd_15)
  have r14: "(recognizers ! 14) (trimString (js ''dm+d: 123456''))
               = Some (Inr (js ''< 123456 |SNOMED CT concept|''))"
    by (simp add: recognizers_def dmd_trim dmd_15)
  have d: "\<forall>j<2. \<not> (firing ! j) (trimString (js ''dm+d: 123456''))"
    using f0 f1 by (simp add: less_Suc_eq numeral_2_eq_2)
  from C1_priority[OF a b f2 d]
  have first: "extractSnomedEclFromValueSet (js ''dm+d: 123456'') = Inr (js ''< 123456 |dm+d concept|'')"
    by (simp add: recognizers_def dmd_trim dmd_3)
  have a2: "trimString (js ''SCT <<1234567 SNOMED CT: x'') \<noteq> []" by (simp add: s1_trim js_Nil_iff)
  have b2: "14 < length recognizers" by (simp add: recognizers_def)
  have p2: "test True altPrefixPattern (trimString (js ''SCT <<1234567 SNOMED CT: x''))"
    and p13: "test True multipleConceptPattern (trimString (js ''SCT <<1234567 SNOMED CT: x''))"
    by (simp_all only: s1_trim s1_pattern2 s1_pattern13)
  have none: "map (\<lambda>r. r (trimString (js ''SCT <<1234567 SNOMED CT: x'')) \<noteq> None) (take 14 recognizers) = replicate 14 False"
    by (simp add: recognizers_def s1_trim s1 numeral_eq_Suc)
  have "map (\<lambda>f. f (trimString (js ''SCT <<1234567 SNOMED CT: x''))) (take 14 firing)
          = take 14 (map (\<lambda>f. f (trimString (js ''SCT <<1234567 SNOMED CT: x''))) firing)"
    by (simp only: take_map)
  also have "\<dots> = map (\<lambda>r. r (trimString (js ''SCT <<1234567 SNOMED CT: x'')) \<noteq> None) (take 14 recognizers)"
    by (simp only: firing_map take_map)
  finally have quiet: "map (\<lambda>f. f (trimString (js ''SCT <<1234567 SNOMED CT: x''))) (take 14 firing) = replicate 14 False"
    by (simp only: none)
  have g14: "(firing ! 14) (trimString (js ''SCT <<1234567 SNOMED CT: x''))"
    by (simp add: f recognizers_def s1_trim s1_15)
  have d2: "\<forall>j<14. \<not> (firing ! j) (trimString (js ''SCT <<1234567 SNOMED CT: x''))"
  proof (intro allI impI)
    fix j :: nat assume j: "j < 14"
    then have "map (\<lambda>f. f (trimString (js ''SCT <<1234567 SNOMED CT: x''))) (take 14 firing) ! j
                 = (firing ! j) (trimString (js ''SCT <<1234567 SNOMED CT: x''))"
      by (simp add: length_firing recognizers_def)
    with j show "\<not> (firing ! j) (trimString (js ''SCT <<1234567 SNOMED CT: x''))" by (simp add: quiet)
  qed
  from C1_priority[OF a2 b2 g14 d2]
  have second: "extractSnomedEclFromValueSet (js ''SCT <<1234567 SNOMED CT: x'') = Inr (js ''< 1234567 |SNOMED CT concept|'')"
    by (simp add: recognizers_def s1_trim s1_15)
  from a b f2 f0 f1 f14 r14 first p2 p13 quiet g14 second show ?thesis by blast
qed

text \<open>
  C1, as stated: the engine returns the result of the earliest-listed recognizer that
  produces a non-empty result. The FHIR ECL URL recognizer returns whatever the
  canonicalizer yields, and for the expression \<open>%20\<close> that is the empty string: the
  engine returns it, although the standalone-concept recognizer, listed later, produces a
  non-empty result for the same descriptor.
\<close>

theorem C1_first_non_empty_counterexample:
  "extractSnomedEclFromValueSet (js ''123456 snomed.info/sct?fhir_vs=ecl/%20'') = Inr []
   \<and> firstNonEmpty recognizers (trimString (js ''123456 snomed.info/sct?fhir_vs=ecl/%20''))
       = Inr (js ''< 123456 |SNOMED CT concept|'')
   \<and> js ''< 123456 |SNOMED CT concept|'' \<noteq> []"
  by (simp add: extractSnomedEclFromValueSet_def recognizers_def x2_trim x2 js_Nil_iff)

section \<open>C2: the documented example\<close>

text \<open>
  C2: the script's header documents that \<open>SNOMED CT: - <71388002 |Procedure (procedure)|\<close>
  is converted to \<open>< 71388002 |Procedure|\<close>. The complex-expression pattern takes
  \<open>:\<close> and then an optional \<open>-\<close> directly after it; here a space follows the colon, so
  the hyphen stays in the captured tail, the tail passes the validity gate, and the
  canonicalizer returns it with the hyphen in front.
\<close>

theorem C2_documented_example:
  "extractSnomedEclFromValueSet (js ''SNOMED CT: - <71388002 |Procedure (procedure)|'')
     = Inr (js ''-< 71388002 |Procedure|'')
   \<and> js ''-< 71388002 |Procedure|'' \<noteq> js ''< 71388002 |Procedure|''"
  by (simp add: extractSnomedEclFromValueSet_def complexEcl_def c2_trim c2_exec c2_tail_trim
        c2_valid c2_clean js_Nil_iff js_eq_iff group_def str_of_def)

section \<open>C6: the length of a concept identifier\<close>

text \<open>
  C6: an all-digit token of 19 digits is not to be recognised as a concept identifier.
  The patterns bound the identifier by \<open>\d{6,18}\<close> without anchoring its end, so the
  bound never rejects a longer run of digits: the first 18 digits are taken.
\<close>

theorem C6_nineteen_digits:
  "length (js ''1234567890123456789'') = 19
   \<and> extractSnomedEclFromValueSet (js ''SNOMED CT: 1234567890123456789'')
       = Inr (js ''< 123456789012345678 |SNOMED CT concept|'')"
  by (simp add: extractSnomedEclFromValueSet_def c6_trim c6 js_Nil_iff) (simp add: js_def)

section \<open>C5: the FHIR ECL value-set URL\<close>




section \<open>C8: no expression in the descriptor\<close>

text \<open>
  C8, as stated: every element whose descriptor is empty is counted under the
  no-SNOMED-pattern counter. An element that carries a \<open>snomedECL\<close> already is skipped
  by the guard before its descriptor is read, and is counted as existing-skipped instead.
\<close>

theorem C8_guarded_element_counterexample:
  "getTaggedValue (tags (repo [tag ''snomedECL'' ''x'']) 0) (js ''valueSets'') = []
   \<and> extractSnomedEclFromValueSet [] = Inr []
   \<and> nonSnomedSkipped (counter (convertSingleDataElement defaultConfig (js ''2024-12-19'') 0
        (repo [tag ''snomedECL'' ''x''])))
       = nonSnomedSkipped (counter (repo [tag ''snomedECL'' ''x'']))"
  by (simp add: convertSingleDataElement_def Let_def count_def repo_def tag_def
        defaultConfig_def js_eq_iff js_Nil_iff x_trim extractSnomedEclFromValueSet_def
        trimString_Nil)

text \<open>
  C8, amended: for every element that the guard does not skip (its \<open>snomedECL\<close> is blank
  or \<open>skipExistingEcl\<close> is false) and whose descriptor is blank or fires no recognizer,
  the conversion returns the empty result, no tag is written, the elements-processed and
  no-SNOMED-pattern counters grow by one, and the error counter is unchanged.
\<close>

theorem C8_no_expression:
  assumes "trimString (getTaggedValue (tags st element) (js ''snomedECL'')) = []
           \<or> \<not> skipExistingEcl cfg"
    and "trimString (getTaggedValue (tags st element) (js ''valueSets'')) = []
         \<or> (\<forall>r \<in> set recognizers.
               r (trimString (getTaggedValue (tags st element) (js ''valueSets''))) = None)"
  shows "extractSnomedEclFromValueSet (getTaggedValue (tags st element) (js ''valueSets'')) = Inr []
       \<and> convertSingleDataElement cfg today element st =
           st\<lparr>counter := (counter st)\<lparr>elementsProcessed := elementsProcessed (counter st) + 1,
                                      nonSnomedSkipped := nonSnomedSkipped (counter st) + 1\<rparr>\<rparr>"
proof -
  have e: "extractSnomedEclFromValueSet (getTaggedValue (tags st element) (js ''valueSets''))
             = Inr []"
    using assms(2) firstFiring_none[of recognizers]
    by (auto simp: extract_firstFiring)
  with assms(1) show ?thesis
    by (auto simp: convertSingleDataElement_def count_def Let_def)
qed

theorem C8_no_expression_witness:
  "trimString (getTaggedValue (tags (repo [tag ''valueSets'' ''Local procedure codes'']) 0)
       (js ''snomedECL'')) = []
   \<and> map (\<lambda>r. r (trimString (getTaggedValue
                     (tags (repo [tag ''valueSets'' ''Local procedure codes'']) 0)
                     (js ''valueSets'')))) recognizers = replicate 15 None
   \<and> convertSingleDataElement defaultConfig (js ''2024-12-19'') 0
        (repo [tag ''valueSets'' ''Local procedure codes''])
       = \<lparr>tags = (\<lambda>_. [tag ''valueSets'' ''Local procedure codes'']),
          counter = \<lparr>elementsProcessed = 1, conversionsPerformed = 0, existingEclSkipped = 0,
                      nonSnomedSkipped = 1, errors = 0\<rparr>\<rparr>"
proof -
  have a: "trimString (getTaggedValue (tags (repo [tag ''valueSets'' ''Local procedure codes'']) 0)
             (js ''snomedECL'')) = []"
    by (simp add: repo_def tag_def js_eq_iff trimString_Nil)
  then have a': "trimString (getTaggedValue
                   (tags (repo [tag ''valueSets'' ''Local procedure codes'']) 0)
                   (js ''snomedECL'')) = []
                 \<or> \<not> skipExistingEcl defaultConfig" by simp
  have b: "\<forall>r \<in> set recognizers.
             r (trimString (getTaggedValue
                  (tags (repo [tag ''valueSets'' ''Local procedure codes'']) 0)
                  (js ''valueSets''))) = None"
    by (simp add: repo_def tag_def recognizers_def c8_trim c8 js_eq_iff)
  then have b': "trimString (getTaggedValue
                    (tags (repo [tag ''valueSets'' ''Local procedure codes'']) 0)
                    (js ''valueSets'')) = []
                 \<or> (\<forall>r \<in> set recognizers.
                       r (trimString (getTaggedValue
                            (tags (repo [tag ''valueSets'' ''Local procedure codes'']) 0)
                            (js ''valueSets''))) = None)" by simp
  have c: "map (\<lambda>r. r (trimString (getTaggedValue
                     (tags (repo [tag ''valueSets'' ''Local procedure codes'']) 0)
                     (js ''valueSets'')))) recognizers = replicate 15 None"
    by (simp add: repo_def tag_def recognizers_def c8_trim c8 js_eq_iff numeral_eq_Suc)
  from C8_no_expression[OF a' b', of "js ''2024-12-19''"] a c show ?thesis
    by (simp add: repo_def zeroCounter_def)
qed

section \<open>C9: fault containment\<close>

text \<open>
  C9, as stated: any exception raised while processing one element is caught at the
  per-element level, counted once as an error, and does not halt the loop over the other
  elements. The handler of \<open>convertSingleDataElement\<close> writes to the output log before it
  counts the error (l.198, l.199). In this batch of two elements the extractor throws on
  the first one and the handler's log fails: the exception leaves the loop, the error is
  not counted, and the second element is never processed.
\<close>

theorem C9_failing_handler_counterexample:
  "fst (tryBlock defaultConfig (js ''2024-12-19'') handlerLogFails 0
          (repo2 [tag ''valueSets'' ''snomed.info/sct?fhir_vs=ecl/%'']
                 [tag ''valueSets'' ''dm+d: 123456'']))
     = Some (ScriptError URIError)
   \<and> fst (convertAllDataElementsF defaultConfig (js ''2024-12-19'')
            [(0, handlerLogFails), (1, noFaults)]
            (repo2 [tag ''valueSets'' ''snomed.info/sct?fhir_vs=ecl/%'']
                   [tag ''valueSets'' ''dm+d: 123456'']))
     = Some HostError
   \<and> counter (snd (convertAllDataElementsF defaultConfig (js ''2024-12-19'')
                     [(0, handlerLogFails), (1, noFaults)]
                     (repo2 [tag ''valueSets'' ''snomed.info/sct?fhir_vs=ecl/%'']
                            [tag ''valueSets'' ''dm+d: 123456''])))
     = \<lparr>elementsProcessed = 1, conversionsPerformed = 0, existingEclSkipped = 0,
        nonSnomedSkipped = 0, errors = 0\<rparr>"
  by (simp only: c9_try c9_escapes c9_counter simp_thms)

text \<open>
  C9, amended: for every batch in which neither the progress log of the loop (l.118,
  l.136) nor the log of the handler of \<open>convertSingleDataElement\<close> (l.198) fails, any
  exception raised inside the \<open>try\<close> block of an element (the extractor's \<open>URIError\<close>,
  or the failure of a host call there: an output log, a tagged-value read whose warning
  fails too, a tagged-value write) is caught by \<open>convertSingleDataElement\<close>, adds
  exactly one to the error counter, and the loop goes on with the remaining elements from
  that state; the loop ends without an exception and has processed every element of the
  batch.
\<close>

theorem C9_fault_containment:
  assumes "\<forall>p \<in> set (before @ (element, faults) # after).
             \<not> snd p LogProcessing \<and> \<not> snd p LogHandler"
    and "st1 = snd (convertAllDataElementsF cfg today before st)"
    and "tryBlock cfg today faults element st1 = (Some e, st2)"
  shows "convertAllDataElementsF cfg today (before @ (element, faults) # after) st =
           convertAllDataElementsF cfg today after
             (st2\<lparr>counter := (counter st2)\<lparr>errors := errors (counter st1) + 1\<rparr>\<rparr>)
       \<and> fst (convertAllDataElementsF cfg today (before @ (element, faults) # after) st) = None
       \<and> elementsProcessed (counter (snd (convertAllDataElementsF cfg today
             (before @ (element, faults) # after) st)))
           = elementsProcessed (counter st) + length (before @ (element, faults) # after)"
proof -
  from assms(1) have b: "\<forall>p \<in> set before. \<not> snd p LogProcessing \<and> \<not> snd p LogHandler"
    and f: "\<not> faults LogProcessing" "\<not> faults LogHandler"
    by auto
  from convertAllF_completes[OF b, of cfg today st] assms(2)
  have before: "convertAllDataElementsF cfg today before st = (None, st1)"
    by (cases "convertAllDataElementsF cfg today before st") simp
  from tryBlock_counters[OF assms(3)] have "errors (counter st2) = errors (counter st1)"
    by simp
  then have single: "convertSingleDataElementF cfg today faults element st1 =
      (None, st2\<lparr>counter := (counter st2)\<lparr>errors := errors (counter st1) + 1\<rparr>\<rparr>)"
    using f(2) by (simp add: convertSingleDataElementF_def assms(3) count_def)
  have "convertAllDataElementsF cfg today (before @ (element, faults) # after) st =
          convertAllDataElementsF cfg today after
            (st2\<lparr>counter := (counter st2)\<lparr>errors := errors (counter st1) + 1\<rparr>\<rparr>)"
    by (simp add: convertAllF_append before thenDo_None f(1) single)
  with convertAllF_completes[OF assms(1), of cfg today st] show ?thesis by simp
qed

theorem C9_fault_containment_witness:
  "\<not> sourceWriteFails LogProcessing \<and> \<not> sourceWriteFails LogHandler
   \<and> \<not> noFaults LogProcessing \<and> \<not> noFaults LogHandler
   \<and> fst (tryBlock defaultConfig (js ''2024-12-19'') sourceWriteFails 0
            (repo [tag ''valueSets'' ''dm+d: 123456''])) = Some HostError
   \<and> fst (convertAllDataElementsF defaultConfig (js ''2024-12-19'')
            [(0, sourceWriteFails), (1, noFaults)]
            (repo [tag ''valueSets'' ''dm+d: 123456''])) = None
   \<and> counter (snd (convertAllDataElementsF defaultConfig (js ''2024-12-19'')
                     [(0, sourceWriteFails), (1, noFaults)]
                     (repo [tag ''valueSets'' ''dm+d: 123456''])))
     = \<lparr>elementsProcessed = 2, conversionsPerformed = 1, existingEclSkipped = 0,
        nonSnomedSkipped = 0, errors = 1\<rparr>"
proof -
  let ?st = "repo [tag ''valueSets'' ''dm+d: 123456'']"
  have p: "\<not> sourceWriteFails LogProcessing" "\<not> sourceWriteFails LogHandler"
          "\<not> noFaults LogProcessing" "\<not> noFaults LogHandler"
    by (simp_all add: sourceWriteFails_def noFaults_def)
  then have a: "\<forall>p \<in> set ([] @ (0, sourceWriteFails) # [(1, noFaults)]).
                  \<not> snd p LogProcessing \<and> \<not> snd p LogHandler"
    by simp
  have b: "?st = snd (convertAllDataElementsF defaultConfig (js ''2024-12-19'') [] ?st)"
    by simp
  have c: "tryBlock defaultConfig (js ''2024-12-19'') sourceWriteFails 0 ?st
             = (Some HostError,
                snd (tryBlock defaultConfig (js ''2024-12-19'') sourceWriteFails 0 ?st))"
    using write_try by (simp only: prod_eq_iff fst_conv snd_conv simp_thms)
  from C9_fault_containment[OF a b c]
  have "fst (convertAllDataElementsF defaultConfig (js ''2024-12-19'')
               ([] @ (0, sourceWriteFails) # [(1, noFaults)]) ?st) = None"
    by (rule conjunct1[OF conjunct2])
  then have "fst (convertAllDataElementsF defaultConfig (js ''2024-12-19'')
               [(0, sourceWriteFails), (1, noFaults)] ?st) = None"
    by (simp only: append_Nil)
  with p write_try write_batch show ?thesis by (simp only: simp_thms)
qed

section \<open>C4: the validity gate\<close>

text \<open>
  C4, as stated: the gate accepts a text exactly when it has an operator or keyword, a run
  of 6 to 18 digits, and an explicit logical join or more than 20 characters. Two texts
  that the gate accepts show otherwise. The script's third test also accepts an operator
  applied to a digit, so the short text \<open><1234567\<close>, which has no logical join, passes.
  The script's second test looks for 6 to 18 digits anywhere, also inside a longer run, so
  \<open><< 1234567890123456789 |Disorder|\<close>, whose only run of digits has 19 of them, passes.
\<close>

theorem C4_operator_digit_counterexample:
  "isValidEclExpression (js ''<1234567'') \<and> \<not> isPlausibleComplexExpression (js ''<1234567'')
   \<and> isValidEclExpression (js ''<< 1234567890123456789 |Disorder|'')
   \<and> \<not> isPlausibleComplexExpression (js ''<< 1234567890123456789 |Disorder|'')"
proof -
  have "\<not> containsIdRun (js ''<< 1234567890123456789 |Disorder|'')"
    by (simp add: containsIdRun_def long_runs)
  with short_valid short_no_join short_length long_valid show ?thesis
    by (simp only: isPlausibleComplexExpression_def simp_thms)
qed

text \<open>
  C4, amended: for every text that has no run of more than 18 digits,
  \<open>isValidEclExpression\<close> returns true if and only if the text contains an operator
  character (\<open><\<close>, \<open>>\<close>, \<open>^\<close>) or a keyword \<open>AND\<close>, \<open>OR\<close>, \<open>MINUS\<close> in any
  letter case, and contains a run of 6 to 18 digits, and contains a keyword \<open>or\<close>,
  \<open>and\<close>, \<open>minus\<close> in any letter case between white space, or an operator character
  followed after optional white space by a digit, or is longer than 20 code units.
\<close>

theorem C4_validity_gate:
  assumes "noLongDigitRun expression"
  shows "isValidEclExpression expression =
     ((containsOperator expression \<or> containsKeyword expression)
      \<and> containsIdRun expression
      \<and> (containsKeywordJoin expression \<or> containsOperatorDigit expression
          \<or> length expression > 20))"
proof -
  have "containsIdRun expression = containsDigitRun expression"
    using assms idRun_bounded[of "digitRuns expression"]
    by (simp only: containsIdRun_def noLongDigitRun_def containsDigitRun_runs)
  then show ?thesis
    unfolding isValidEclExpression_def containsDigitRun_def
    by (simp only: hasEclOperators_iff hasConceptIds_iff hasLogicalStructure_iff disj_assoc)
qed

theorem C4_validity_gate_witness:
  "noLongDigitRun (js ''<1234567'')
   \<and> isValidEclExpression (js ''<1234567'')
   \<and> containsOperator (js ''<1234567'') \<and> containsIdRun (js ''<1234567'')
   \<and> containsOperatorDigit (js ''<1234567'')"
proof -
  have n: "noLongDigitRun (js ''<1234567'')" by (simp add: noLongDigitRun_def short_runs)
  have a: "containsOperator (js ''<1234567'')" by (simp add: containsOperator_def js_def)
  have b: "containsIdRun (js ''<1234567'')" by (simp add: containsIdRun_def short_runs)
  have c: "containsOperatorDigit (js ''<1234567'')"
    by (simp add: containsOperatorDigit_def js_def digitFirst_def isDigit_def isWhiteSpace_def)
  from n a b c C4_validity_gate[OF n] show ?thesis by (simp only: simp_thms)
qed

section \<open>C3: idempotence of the canonicalizer\<close>




end
